theory Spec2Isabelle
  imports Complex_Main "HOL-Library.AList" "HOL-Library.Multiset"
begin

section \<open>The lines renderer worker of the map viewer\<close>

text \<open>
  This theory embeds \<^verbatim>\<open>src/views/map/worker-linesrenderer.ts\<close>. JavaScript numbers
  that index arcs are modelled as \<^typ>\<open>int\<close> and coordinates as \<^typ>\<open>real\<close>. The width
  and the zoom of a render request and the spacing computed from them are doubles, with
  the rounding, the infinities and the NaN of IEEE 754: \<open>ScaleSpacing\<close> and the clamp of
  \<open>renderLines\<close> compute on them. The clamped spacing is NaN or finite; the distances
  that \<open>renderLines\<close> derives from a finite spacing and hands to the geometry library
  are computed on the reals. In the colour comparator NaN is modelled where the code can
  produce it from strings, in \<open>parseInt\<close> and \<open>Math.pow\<close>. Strings are lists of 8-bit
  characters.
  The \<open>postMessage\<close> notifications carry no data any function reads and are left out.
\<close>

subsection \<open>Numbers as strings\<close>

text \<open>
  Template literals and \<open>Array.prototype.join\<close> turn a number into a string with
  \<open>Number::toString\<close>: for an integer, its decimal digits, after a minus sign when
  negative (below \<open>10\<^sup>2\<^sup>1\<close> in absolute value, where JavaScript prints every digit).
\<close>

definition digit_char :: "nat \<Rightarrow> char" where
  "digit_char d = ''0123456789'' ! d"

fun string_of_nat :: "nat \<Rightarrow> string" where
  "string_of_nat n =
     (if n < 10 then [digit_char n]
      else string_of_nat (n div 10) @ [digit_char (n mod 10)])"

declare string_of_nat.simps [simp del]

definition js_string_of_int :: "int \<Rightarrow> string" where
  "js_string_of_int i =
     (if i < 0 then CHR ''-'' # string_of_nat (nat (- i)) else string_of_nat (nat i))"

text \<open>\<open>[a, b, c].join(':')\<close> on parts that are already strings.\<close>

fun join_colon :: "string list \<Rightarrow> string" where
  "join_colon [] = []"
| "join_colon [s] = s"
| "join_colon (s # t # ts) = s @ CHR '':'' # join_colon (t # ts)"

subsection \<open>The topology and what ingestion keeps of it\<close>

type_synonym coordpair = "real \<times> real"

text \<open>
  One geometry of \<open>objects.lines.geometries\<close>: its signed arc references and the
  \<open>stroke\<close> of its properties (\<open>title\<close> and \<open>agency\<close> are never read).
\<close>

record line_geometry =
  arcs :: "int list"
  stroke :: string

text \<open>The topology: the geometries and the arc table (\<open>bbox\<close> and \<open>upperBounds\<close> are never read).\<close>

record topojsonExport =
  geometries :: "line_geometry list"
  topo_arcs :: "coordpair list list"

text \<open>
  A \<open>LineSegment\<close>. \<open>top\<close> and \<open>bottom\<close> are \<open>arcs[i][0]\<close> and
  \<open>arcs[i][arcs[i].length - 1]\<close>, which are \<open>undefined\<close> (\<open>None\<close>) for an empty arc.
\<close>

record LineSegment =
  geometry :: "coordpair list"
  top :: "coordpair option"
  bottom :: "coordpair option"
  colors :: "string list"

record LineConnection =
  conn_from :: "int \<times> string"
  conn_to :: "int \<times> string"
  color :: string

datatype error = TypeError

subsection \<open>extractLineConnections\<close>

text \<open>
  The body of the callback given to \<open>reduce\<close>, on the two arrays \<open>Connections\<close> and
  \<open>ConnectionsDedupe\<close> it mutates.
\<close>

definition DedupeString :: "string \<Rightarrow> int \<Rightarrow> string \<Rightarrow> int \<Rightarrow> string \<Rightarrow> string" where
  "DedupeString s fromId fromPart toId toPart =
     join_colon [s, js_string_of_int fromId, fromPart, js_string_of_int toId, toPart]"

definition reduce_callback ::
  "string \<Rightarrow> int \<Rightarrow> int \<Rightarrow> LineConnection list \<times> string list
     \<Rightarrow> LineConnection list \<times> string list" where
  "reduce_callback s prev cur st =
     (let fromId = (if prev < 0 then prev * (-1) - 1 else prev);
          fromPart = (if prev < 0 then ''top'' else ''bottom'');
          toId = (if cur < 0 then cur * (-1) - 1 else cur);
          toPart = (if cur < 0 then ''bottom'' else ''top'');
          key = DedupeString s fromId fromPart toId toPart
      in if key \<notin> set (snd st)
         then (fst st @ [\<lparr>conn_from = (fromId, fromPart), conn_to = (toId, toPart), color = s\<rparr>],
               snd st @ [key])
         else st)"

text \<open>\<open>reduce\<close> after its first element: the accumulator is the previous arc reference.\<close>

fun reduce_from ::
  "string \<Rightarrow> int \<Rightarrow> int list \<Rightarrow> LineConnection list \<times> string list
     \<Rightarrow> LineConnection list \<times> string list" where
  "reduce_from s prev [] st = st"
| "reduce_from s prev (cur # rest) st = reduce_from s cur rest (reduce_callback s prev cur st)"

text \<open>
  \<open>line.arcs.reduce(callback)\<close> has no initial value: on an empty array it throws a
  \<open>TypeError\<close>, on one element it returns it without calling the callback.
\<close>

definition reduce_line ::
  "line_geometry \<Rightarrow> LineConnection list \<times> string list
     \<Rightarrow> error + LineConnection list \<times> string list" where
  "reduce_line line st =
     (case arcs line of
        [] \<Rightarrow> Inl TypeError
      | a # rest \<Rightarrow> Inr (reduce_from (stroke line) a rest st))"

fun connections_loop ::
  "line_geometry list \<Rightarrow> LineConnection list \<times> string list
     \<Rightarrow> error + LineConnection list \<times> string list" where
  "connections_loop [] st = Inr st"
| "connections_loop (line # lines) st =
     (case reduce_line line st of
        Inl e \<Rightarrow> Inl e
      | Inr st' \<Rightarrow> connections_loop lines st')"

definition extractLineConnections :: "topojsonExport \<Rightarrow> error + LineConnection list" where
  "extractLineConnections T =
     (case connections_loop (geometries T) ([], []) of
        Inl e \<Rightarrow> Inl e
      | Inr st \<Rightarrow> Inr (fst st))"

subsection \<open>ExtractLineSegments\<close>

text \<open>
  \<open>new Set(array)\<close> keeps the first occurrence of each value, in order; spreading it
  gives that order back.
\<close>

fun set_insertion_order :: "'a list \<Rightarrow> 'a list \<Rightarrow> 'a list" where
  "set_insertion_order seen [] = seen"
| "set_insertion_order seen (x # xs) =
     set_insertion_order (if x \<in> set seen then seen else seen @ [x]) xs"

text \<open>
  The callback of \<open>geometries.map\<close> for the arc index \<open>i\<close>: the stroke, or
  \<open>'#000000'\<close> when the stroke is the empty string, when the test holds, and
  \<open>undefined\<close> (\<open>None\<close>) otherwise. The test branches on the sign of the loop index.
\<close>

definition color_if_in_segment :: "int \<Rightarrow> line_geometry \<Rightarrow> string option" where
  "color_if_in_segment i line =
     (if (if i < 0 then (i * (-1) - 1) \<in> set (arcs line) else i \<in> set (arcs line))
      then Some (if stroke line = [] then ''#000000'' else stroke line)
      else None)"

definition colorsInSegment :: "topojsonExport \<Rightarrow> int \<Rightarrow> string option list" where
  "colorsInSegment T i = set_insertion_order [] (map (color_if_in_segment i) (geometries T))"

text \<open>\<open>arr[0]\<close> and \<open>arr[arr.length - 1]\<close>, \<open>undefined\<close> on an empty array.\<close>

definition first_elem :: "'a list \<Rightarrow> 'a option" where
  "first_elem xs = (case xs of [] \<Rightarrow> None | x # _ \<Rightarrow> Some x)"

definition last_elem :: "'a list \<Rightarrow> 'a option" where
  "last_elem xs = (if xs = [] then None else Some (last xs))"

definition make_segment :: "topojsonExport \<Rightarrow> nat \<Rightarrow> LineSegment" where
  "make_segment T i =
     \<lparr>geometry = topo_arcs T ! i,
      top = first_elem (topo_arcs T ! i),
      bottom = last_elem (topo_arcs T ! i),
      colors = map the (filter (\<lambda>e. e \<noteq> None) (colorsInSegment T (int i)))\<rparr>"

definition segment_key :: "nat \<Rightarrow> string" where
  "segment_key i = ''Segment:'' @ js_string_of_int (int i)"

text \<open>
  A \<open>Map\<close> is the list of its entries in insertion order; \<open>Map.prototype.set\<close> is
  \<^const>\<open>AList.update\<close>: it replaces the value of a key that is there, in place, and
  appends an entry for a new key.
\<close>

definition ExtractLineSegments :: "topojsonExport \<Rightarrow> (string \<times> LineSegment) list" where
  "ExtractLineSegments T =
     fold (\<lambda>i Segments. AList.update (segment_key i) (make_segment T i) Segments)
       [0 ..< length (topo_arcs T)] []"

subsection \<open>The worker's state and processTopologies\<close>

record worker =
  LineSegments :: "(string \<times> LineSegment) list"
  LineConnections :: "LineConnection list"

definition new_worker :: worker where
  "new_worker = \<lparr>LineSegments = [], LineConnections = []\<rparr>"

text \<open>
  \<open>processTopologies\<close> empties both fields first, so when \<open>extractLineConnections\<close>
  throws the worker is left empty. The result is the exception, if any, and the new state.
\<close>

definition processTopologies :: "topojsonExport \<Rightarrow> worker \<Rightarrow> error option \<times> worker" where
  "processTopologies data w =
     (case extractLineConnections data of
        Inl e \<Rightarrow> (Some e, new_worker)
      | Inr line_connections \<Rightarrow>
          (let line_segments = ExtractLineSegments data
           in (None,
               \<lparr>LineSegments =
                  fold (\<lambda>entry m. AList.update (fst entry) (snd entry) m) line_segments [],
                LineConnections =
                  fold (\<lambda>connection cs. cs @ [connection]) line_connections []\<rparr>)))"

subsection \<open>The geometry library\<close>

text \<open>
  The functions of \<open>@turf\<close> and \<open>to-smooth\<close> are not part of the repository: they are
  the fields of a record the renderer takes as a parameter. A \<open>Feature<LineString>\<close> is
  its coordinate list and the viewport polygon is its ring: \<open>lineString\<close> and \<open>polygon\<close>
  only wrap their argument. Exceptions raised inside the library, those of the two
  wrappers on a line of fewer than 2 points or an open ring included, are not modelled.
  \<open>distance\<close> is always called with \<open>[0, 0]\<close> first and an array element, possibly
  \<open>undefined\<close>, second. A distance handed to \<open>lineSliceAlong\<close> or \<open>lineOffset\<close>
  can be NaN: \<open>lineSliceAlong_NaN line\<close> is \<open>lineSliceAlong(line, NaN, NaN)\<close> and
  \<open>lineOffset_NaN line\<close> is \<open>lineOffset(line, NaN)\<close>.
\<close>

type_synonym linestring = "coordpair list"

record turf =
  turf_length :: "linestring \<Rightarrow> real"
  lineSliceAlong :: "linestring \<Rightarrow> real \<Rightarrow> real \<Rightarrow> linestring"
  lineOffset :: "linestring \<Rightarrow> real \<Rightarrow> linestring"
  distance :: "coordpair \<Rightarrow> coordpair option \<Rightarrow> real"
  booleanIntersects :: "coordpair list \<Rightarrow> linestring \<Rightarrow> bool"
  smooth :: "coordpair list \<Rightarrow> nat \<Rightarrow> real \<Rightarrow> coordpair list"
  lineSliceAlong_NaN :: "linestring \<Rightarrow> linestring"
  lineOffset_NaN :: "linestring \<Rightarrow> linestring"

subsection \<open>ProcessOffsetLines and ClipLine\<close>

definition ProcessOffsetLines :: "turf \<Rightarrow> linestring \<Rightarrow> bool \<Rightarrow> coordpair list" where
  "ProcessOffsetLines g lineString flags_should_smooth =
     (if flags_should_smooth then smooth g lineString 2 0.75 else lineString)"

definition ClipLine :: "turf \<Rightarrow> linestring \<Rightarrow> real \<Rightarrow> linestring" where
  "ClipLine g line clipdist =
     (let LineLength = turf_length g line;
          MinLineLength = LineLength / 3
      in if MinLineLength \<le> clipdist \<or> length line < 4 then line
         else (let StartDistance = min MinLineLength clipdist;
                   EndDistance = max (MinLineLength * 2) (LineLength - clipdist)
               in lineSliceAlong g line StartDistance EndDistance))"

text \<open>
  \<open>ClipLine\<close> when the clip distance is NaN: \<open>MinLineLength <= clipdist\<close> is false,
  so only a line of fewer than 4 points is returned as it is, and \<open>Math.min\<close> and
  \<open>Math.max\<close> give NaN for both distances of the slice. \<open>ClipLine_at\<close> and
  \<open>lineOffset_at\<close> are the two calls on a distance that is a number (\<open>Some\<close>) or
  NaN (\<open>None\<close>).
\<close>

definition ClipLine_NaN :: "turf \<Rightarrow> linestring \<Rightarrow> linestring" where
  "ClipLine_NaN g line = (if length line < 4 then line else lineSliceAlong_NaN g line)"

definition ClipLine_at :: "turf \<Rightarrow> linestring \<Rightarrow> real option \<Rightarrow> linestring" where
  "ClipLine_at g line clipdist =
     (case clipdist of Some d \<Rightarrow> ClipLine g line d | None \<Rightarrow> ClipLine_NaN g line)"

definition lineOffset_at :: "turf \<Rightarrow> linestring \<Rightarrow> real option \<Rightarrow> linestring" where
  "lineOffset_at g line offset =
     (case offset of Some d \<Rightarrow> lineOffset g line d | None \<Rightarrow> lineOffset_NaN g line)"

subsection \<open>Double-precision numbers\<close>

text \<open>
  The width, the zoom and the spacing are IEEE 754 doubles: a finite value, an infinity
  or NaN. A finite number of the code is a \<open>Finite x\<close> whose \<open>x\<close> is a double; the
  operations below return only such values. The sign of a zero is not modelled:
  \<open>ScaleSpacing\<close> divides by the constant 100 and by a power of 2, which is never a
  negative zero, and nothing else in the code tells the two zeros apart.

  \<open>fl\<close> rounds a real to the nearest double, a tie to the even significand. For
  \<open>x\<close> with \<open>2\<^sup>e \<le> \<bar>x\<bar> < 2\<^sup>e\<^sup>+\<^sup>1\<close> the doubles around \<open>x\<close> are the multiples of
  \<open>2\<^sup>e\<^sup>-\<^sup>5\<^sup>2\<close>, with \<open>e\<close> never taken below \<open>-1022\<close>, where the subnormal numbers
  begin: \<open>nearest x\<close> is the nearest of them. A rounded magnitude of \<open>2\<^sup>1\<^sup>0\<^sup>2\<^sup>4\<close> or
  more is an infinity.
\<close>

datatype number = Finite real | PosInf | NegInf | NaN

definition pow2 :: "int \<Rightarrow> real" where
  "pow2 k = (if 0 \<le> k then 2 ^ nat k else 1 / 2 ^ nat (- k))"

definition binade :: "real \<Rightarrow> int" where
  "binade x = \<lfloor>log 2 \<bar>x\<bar>\<rfloor>"

definition round_half_even :: "real \<Rightarrow> int" where
  "round_half_even r =
     (let f = \<lfloor>r\<rfloor>
      in if r - of_int f < 1 / 2 then f
         else if 1 / 2 < r - of_int f then f + 1
         else if even f then f else f + 1)"

definition nearest :: "real \<Rightarrow> real" where
  "nearest x =
     (let e = max (binade x) (- 1022);
          ulp = pow2 (e - 52)
      in of_int (round_half_even (x / ulp)) * ulp)"

definition fl :: "real \<Rightarrow> number" where
  "fl x =
     (if x = 0 then Finite 0
      else (let y = nearest x
            in if pow2 1024 \<le> \<bar>y\<bar> then (if 0 < x then PosInf else NegInf) else Finite y))"

text \<open>
  The operators \<open>+\<close>, \<open>-\<close>, \<open>*\<close> and \<open>/\<close>: the exact result rounded, NaN for
  an operand that is NaN and for \<open>\<infinity> - \<infinity>\<close>, \<open>0 * \<infinity>\<close>, \<open>0 / 0\<close> and
  \<open>\<infinity> / \<infinity>\<close>.
\<close>

fun js_neg :: "number \<Rightarrow> number" where
  "js_neg (Finite x) = Finite (- x)"
| "js_neg PosInf = NegInf"
| "js_neg NegInf = PosInf"
| "js_neg NaN = NaN"

fun js_add :: "number \<Rightarrow> number \<Rightarrow> number" where
  "js_add (Finite x) (Finite y) = fl (x + y)"
| "js_add NaN b = NaN"
| "js_add a NaN = NaN"
| "js_add PosInf NegInf = NaN"
| "js_add NegInf PosInf = NaN"
| "js_add PosInf b = PosInf"
| "js_add a PosInf = PosInf"
| "js_add NegInf b = NegInf"
| "js_add a NegInf = NegInf"

definition js_sub :: "number \<Rightarrow> number \<Rightarrow> number" where
  "js_sub a b = js_add a (js_neg b)"

fun js_mul :: "number \<Rightarrow> number \<Rightarrow> number" where
  "js_mul (Finite x) (Finite y) = fl (x * y)"
| "js_mul NaN b = NaN"
| "js_mul a NaN = NaN"
| "js_mul (Finite x) b = (if x = 0 then NaN else if 0 < x then b else js_neg b)"
| "js_mul a (Finite y) = (if y = 0 then NaN else if 0 < y then a else js_neg a)"
| "js_mul a b = (if a = b then PosInf else NegInf)"

fun js_div :: "number \<Rightarrow> number \<Rightarrow> number" where
  "js_div (Finite x) (Finite y) =
     (if y = 0 then (if x = 0 then NaN else if 0 < x then PosInf else NegInf)
      else fl (x / y))"
| "js_div NaN b = NaN"
| "js_div a NaN = NaN"
| "js_div (Finite x) b = Finite 0"
| "js_div a (Finite y) = (if 0 \<le> y then a else js_neg a)"
| "js_div a b = NaN"

text \<open>
  \<open>Math.max\<close> and \<open>Math.min\<close> give NaN when an argument is NaN. \<open>Math.round\<close>
  gives the nearest integer, a half towards plus infinity, and leaves an infinity and NaN
  as they are.
\<close>

fun js_max :: "number \<Rightarrow> number \<Rightarrow> number" where
  "js_max NaN b = NaN"
| "js_max a NaN = NaN"
| "js_max PosInf b = PosInf"
| "js_max a PosInf = PosInf"
| "js_max NegInf b = b"
| "js_max a NegInf = a"
| "js_max (Finite x) (Finite y) = Finite (max x y)"

fun js_min :: "number \<Rightarrow> number \<Rightarrow> number" where
  "js_min NaN b = NaN"
| "js_min a NaN = NaN"
| "js_min NegInf b = NegInf"
| "js_min a NegInf = NegInf"
| "js_min PosInf b = b"
| "js_min a PosInf = a"
| "js_min (Finite x) (Finite y) = Finite (min x y)"

fun js_round :: "number \<Rightarrow> number" where
  "js_round (Finite x) = Finite (of_int \<lfloor>x + 1 / 2\<rfloor>)"
| "js_round a = a"

text \<open>
  The operator \<open>**\<close> is \<open>Number::exponentiate\<close> of ECMAScript. The language fixes
  its value when an operand is NaN, an infinity or a zero, and when a negative base meets
  an exponent that is no integer; for every other pair of finite operands it asks for an
  implementation-approximated value, which differs between engines. That part is a
  parameter of the model: \<open>approximated b e\<close> is the engine's value of \<open>b ** e\<close>.
\<close>

type_synonym approximation = "real \<Rightarrow> real \<Rightarrow> number"

definition js_exponentiate :: "approximation \<Rightarrow> number \<Rightarrow> number \<Rightarrow> number" where
  "js_exponentiate approximated base exponent =
     (case exponent of
        NaN \<Rightarrow> NaN
      | PosInf \<Rightarrow>
          (case base of
             NaN \<Rightarrow> NaN
           | Finite b \<Rightarrow> if 1 < \<bar>b\<bar> then PosInf else if \<bar>b\<bar> = 1 then NaN else Finite 0
           | _ \<Rightarrow> PosInf)
      | NegInf \<Rightarrow>
          (case base of
             NaN \<Rightarrow> NaN
           | Finite b \<Rightarrow> if 1 < \<bar>b\<bar> then Finite 0 else if \<bar>b\<bar> = 1 then NaN else PosInf
           | _ \<Rightarrow> Finite 0)
      | Finite e \<Rightarrow>
          if e = 0 then Finite 1
          else (case base of
                  NaN \<Rightarrow> NaN
                | PosInf \<Rightarrow> if 0 < e then PosInf else Finite 0
                | NegInf \<Rightarrow>
                    if 0 < e then (if e = of_int \<lfloor>e\<rfloor> \<and> odd \<lfloor>e\<rfloor> then NegInf else PosInf)
                    else Finite 0
                | Finite b \<Rightarrow>
                    if b = 0 then (if 0 < e then Finite 0 else PosInf)
                    else if b < 0 \<and> e \<noteq> of_int \<lfloor>e\<rfloor> then NaN
                    else approximated b e))"

subsection \<open>ScaleSpacing\<close>

text \<open>
  A decimal literal is the double nearest to it: \<open>0.025\<close> is \<open>fl 0.025\<close>. The
  integers 1, 2, 10 and 100 are doubles as they stand.
\<close>

definition ScaleSpacing :: "approximation \<Rightarrow> number \<Rightarrow> number \<Rightarrow> number" where
  "ScaleSpacing approximated width zoom =
     (let w = js_max (Finite 1) width;
          z = js_div (js_round (js_mul zoom (Finite 100))) (Finite 100);
          numerator =
            js_add (js_sub (js_mul (fl 0.025) (js_exponentiate approximated w (Finite 2)))
                      (js_mul (fl 0.04) w))
              (fl 0.1);
          scalef = js_div numerator (js_exponentiate approximated (Finite 2) (js_sub z (Finite 10)))
      in scalef)"

subsection \<open>The comparator of the colour sort\<close>

text \<open>
  \<open>String.prototype.substring(start, end)\<close> clamps both indices to the length and swaps
  them when \<open>start > end\<close>.
\<close>

definition js_substring :: "string \<Rightarrow> nat \<Rightarrow> nat \<Rightarrow> string" where
  "js_substring s a b =
     (let n = length s; a' = min a n; b' = min b n;
          lo = min a' b'; hi = max a' b'
      in take (hi - lo) (drop lo s))"

fun index_of :: "'a \<Rightarrow> 'a list \<Rightarrow> nat option" where
  "index_of c [] = None"
| "index_of c (x # xs) =
     (if c = x then Some 0 else (case index_of c xs of None \<Rightarrow> None | Some i \<Rightarrow> Some (Suc i)))"

definition hex_digit :: "char \<Rightarrow> nat option" where
  "hex_digit c =
     (case index_of c ''0123456789abcdef'' of
        Some d \<Rightarrow> Some d
      | None \<Rightarrow> (case index_of c ''ABCDEF'' of Some d \<Rightarrow> Some (10 + d) | None \<Rightarrow> None))"

fun hex_prefix :: "string \<Rightarrow> nat list" where
  "hex_prefix [] = []"
| "hex_prefix (c # cs) = (case hex_digit c of None \<Rightarrow> [] | Some d \<Rightarrow> d # hex_prefix cs)"

definition hex_value :: "nat list \<Rightarrow> nat" where
  "hex_value ds = foldl (\<lambda>acc d. 16 * acc + d) 0 ds"

definition is_js_whitespace :: "char \<Rightarrow> bool" where
  "is_js_whitespace c \<longleftrightarrow> c \<in> set [CHR 0x09, CHR 0x0A, CHR 0x0B, CHR 0x0C, CHR 0x0D, CHR 0x20, CHR 0xA0]"

text \<open>
  \<open>parseInt(s, 16)\<close>: leading white space is skipped, then a sign, then \<open>0x\<close> or
  \<open>0X\<close>; the value is that of the longest run of hexadecimal digits that follows, and
  \<open>NaN\<close> (\<open>None\<close>) when that run is empty.
\<close>

definition parseInt16 :: "string \<Rightarrow> int option" where
  "parseInt16 s =
     (let s1 = dropWhile is_js_whitespace s;
          sign = (case s1 of [] \<Rightarrow> 1 | c # _ \<Rightarrow> if c = CHR ''-'' then - 1 else (1::int));
          s2 = (case s1 of [] \<Rightarrow> s1 | c # r \<Rightarrow> if c = CHR ''-'' \<or> c = CHR ''+'' then r else s1);
          s3 = (if take 2 s2 = ''0x'' \<or> take 2 s2 = ''0X'' then drop 2 s2 else s2);
          ds = hex_prefix s3
      in if ds = [] then None else Some (sign * int (hex_value ds)))"

text \<open>
  \<open>Math.pow(x, 2.2)\<close>: \<open>NaN\<close> for a negative base (the exponent is not an integer) and
  for a \<open>NaN\<close> base.
\<close>

definition js_pow22 :: "real \<Rightarrow> real option" where
  "js_pow22 x = (if x < 0 then None else Some (x powr 2.2))"

definition channel :: "string \<Rightarrow> real option" where
  "channel s = (case parseInt16 s of None \<Rightarrow> None | Some v \<Rightarrow> js_pow22 (real_of_int v / 255))"

text \<open>The \<open>luminosityA\<close> of the comparator, \<open>None\<close> when it is \<open>NaN\<close>.\<close>

definition luminosity :: "string \<Rightarrow> real option" where
  "luminosity a =
     (case (channel (js_substring a 1 2), channel (js_substring a 3 2),
            channel (js_substring a 5 2)) of
        (Some r, Some g, Some b) \<Rightarrow> Some (0.2126 * r + 0.7152 * g + 0.0722 * b)
      | _ \<Rightarrow> None)"

text \<open>
  The comparator returns \<open>luminosityA - luminosityB\<close>; \<open>Array.prototype.sort\<close> reads
  a \<open>NaN\<close> result as \<open>+0\<close>.
\<close>

definition compare_luminosity :: "string \<Rightarrow> string \<Rightarrow> real" where
  "compare_luminosity a b =
     (case (luminosity a, luminosity b) of
        (Some la, Some lb) \<Rightarrow> la - lb
      | _ \<Rightarrow> 0)"

text \<open>
  \<open>Array.prototype.sort\<close> is a stable sort, here insertion sort: every stable sort
  gives the same result when the comparator is consistent, and the standard leaves the
  order open when it is not.
\<close>

fun insert_sorted :: "('a \<Rightarrow> 'a \<Rightarrow> real) \<Rightarrow> 'a \<Rightarrow> 'a list \<Rightarrow> 'a list" where
  "insert_sorted cmp x [] = [x]"
| "insert_sorted cmp x (y # ys) =
     (if cmp x y \<le> 0 then x # y # ys else y # insert_sorted cmp x ys)"

definition js_sort :: "('a \<Rightarrow> 'a \<Rightarrow> real) \<Rightarrow> 'a list \<Rightarrow> 'a list" where
  "js_sort cmp xs = foldr (insert_sorted cmp) xs []"

text \<open>\<open>segment.colors.sort(comparator)\<close>, lines 206 to 216.\<close>

definition colors_sorted_by_luminosity :: "string list \<Rightarrow> string list" where
  "colors_sorted_by_luminosity cs = js_sort compare_luminosity cs"

subsection \<open>renderLines\<close>

text \<open>
  \<open>ColourSegmentsEndpoints\<close> is only written with \<open>set\<close> and read with \<open>get\<close>, so
  it is a function from keys to values; \<open>get\<close> gives \<open>undefined\<close> (\<open>None\<close>) for a
  key never set and for a key set to \<open>undefined\<close>. \<open>RenderedColourLine\<close> is iterated at
  the end, so it is the list of its entries.
\<close>

type_synonym endpoints = "string \<Rightarrow> coordpair option"
type_synonym rendered_lines = "(string \<times> coordpair list list) list"

text \<open>
  After line 177 the spacing is NaN (\<open>None\<close>) or a finite number (\<open>Some\<close>). A
  comparison with NaN is false, and arithmetic on NaN gives NaN. The doubles nearest
  \<open>0.007\<close> and \<open>0.11\<close> lie just above them with no double in between, so a double
  is below the literal exactly when it is below the decimal.
\<close>

definition spacing_below :: "real option \<Rightarrow> real \<Rightarrow> bool" where
  "spacing_below spacing bound = (case spacing of Some s \<Rightarrow> s < bound | None \<Rightarrow> False)"

text \<open>The body of the loop over \<open>i\<close>, lines 230 to 281.\<close>

definition render_color ::
  "turf \<Rightarrow> real option \<Rightarrow> bool \<Rightarrow> string \<Rightarrow> linestring \<Rightarrow> string list \<Rightarrow> nat \<Rightarrow> nat
     \<Rightarrow> endpoints \<times> rendered_lines \<Rightarrow> endpoints \<times> rendered_lines" where
  "render_color g spacing flags_should_smooth segment_id line_clipped colours totallines i st =
     (let color = colours ! i;
          linespace = map_option (\<lambda>s. s * 2) spacing;
          lineoffset =
            map_option (\<lambda>l. real i * l - ((real totallines - 1) * l) / 2) linespace;
          line_clipped_offset = lineOffset_at g line_clipped lineoffset;
          line_clipped_ofset_buffer =
            ClipLine_at g line_clipped_offset
              (map_option (\<lambda>s. max 0.049 (s * 5) * 2) spacing);
          line_clipped_ofset_invasive =
            ClipLine_at g line_clipped_ofset_buffer
              (map_option (\<lambda>s. max 0.049 (s * 5) * 2) spacing);
          line_processed = ProcessOffsetLines g line_clipped_ofset_invasive flags_should_smooth;
          E = (fst st)
            (segment_id @ '':'' @ color @ '':top'' := first_elem line_processed,
             segment_id @ '':'' @ color @ '':top:invasive'' := first_elem line_clipped_offset,
             segment_id @ '':'' @ color @ '':top:buffer'' := first_elem line_clipped_ofset_buffer,
             segment_id @ '':'' @ color @ '':bottom'' := last_elem line_processed,
             segment_id @ '':'' @ color @ '':bottom:invasive'' := last_elem line_clipped_offset,
             segment_id @ '':'' @ color @ '':bottom:buffer'' :=
               last_elem line_clipped_ofset_buffer);
          R = (case map_of (snd st) color of
                 Some ls \<Rightarrow> AList.update color (ls @ [line_processed]) (snd st)
               | None \<Rightarrow> AList.update color [line_processed] (snd st))
      in (E, R))"

text \<open>
  The body of the loop over the segments, lines 193 to 282. \<open>segment.colors.sort\<close> sorts
  the stored array in place and returns it: the segment comes back with its colours in
  the sorted order. A segment outside the viewport is left as it is.
\<close>

definition render_segment ::
  "turf \<Rightarrow> real option \<Rightarrow> coordpair list \<Rightarrow> string \<Rightarrow> LineSegment
     \<Rightarrow> endpoints \<times> rendered_lines \<Rightarrow> LineSegment \<times> endpoints \<times> rendered_lines" where
  "render_segment g spacing viewport segment_id segment st =
     (let flags_should_smooth = spacing_below spacing 0.007;
          line = geometry segment
      in if \<not> booleanIntersects g viewport line then (segment, st)
         else
          (let shouldReverseColor =
                 distance g (0, 0) (first_elem (geometry segment))
                   > distance g (0, 0) (last_elem (geometry segment));
               sorted = colors_sorted_by_luminosity (colors segment);
               segment' = segment\<lparr>colors := sorted\<rparr>;
               colors_sorted = (if shouldReverseColor then rev sorted else sorted);
               shouldSortColors = True;
               colours = (if shouldSortColors then colors_sorted else colors segment');
               totallines = length (colors segment');
               line_clipped =
                 ClipLine_at g line (map_option (\<lambda>s. max 0.0049 (s * 5) * 6) spacing)
           in (segment',
               fold (render_color g spacing flags_should_smooth segment_id line_clipped
                       colours totallines)
                 [0 ..< totallines] st)))"

fun segments_loop ::
  "turf \<Rightarrow> real option \<Rightarrow> coordpair list \<Rightarrow> (string \<times> LineSegment) list
     \<Rightarrow> endpoints \<times> rendered_lines
     \<Rightarrow> (string \<times> LineSegment) list \<times> endpoints \<times> rendered_lines" where
  "segments_loop g spacing viewport [] st = ([], st)"
| "segments_loop g spacing viewport (entry # entries) st =
     (case render_segment g spacing viewport (fst entry) (snd entry) st of
        (segment', st') \<Rightarrow>
          (case segments_loop g spacing viewport entries st' of
             (entries', st'') \<Rightarrow> ((fst entry, segment') # entries', st'')))"

text \<open>The six lookups of a connection, in the order of the array \<open>coords\<close>.\<close>

definition connection_coords :: "endpoints \<Rightarrow> LineConnection \<Rightarrow> coordpair option list" where
  "connection_coords E connection =
     (let from_key = ''Segment:'' @ js_string_of_int (fst (conn_from connection)) @ '':''
                       @ color connection @ '':'' @ snd (conn_from connection);
          to_key = ''Segment:'' @ js_string_of_int (fst (conn_to connection)) @ '':''
                       @ color connection @ '':'' @ snd (conn_to connection)
      in [E from_key,
          E (from_key @ '':buffer''),
          E (from_key @ '':invasive''),
          E (to_key @ '':invasive''),
          E (to_key @ '':buffer''),
          E to_key])"

text \<open>
  The body of the loop over the connections, lines 286 to 314.
  \<open>RenderedColourLine.get(connection.color).push\<close> throws a \<open>TypeError\<close> when the map
  has no entry for the colour.
\<close>

definition stitch_connection ::
  "turf \<Rightarrow> bool \<Rightarrow> endpoints \<Rightarrow> LineConnection \<Rightarrow> rendered_lines \<Rightarrow> error + rendered_lines" where
  "stitch_connection g flags_should_smooth_coords E connection R =
     (let coords = connection_coords E connection
      in if None \<notin> set coords
         then (case map_of R (color connection) of
                 None \<Rightarrow> Inl TypeError
               | Some ls \<Rightarrow>
                   Inr (AList.update (color connection)
                          (ls @ [if flags_should_smooth_coords
                                 then smooth g (map the coords) 7 0.75
                                 else map the coords]) R))
         else Inr R)"

fun stitch_loop ::
  "turf \<Rightarrow> bool \<Rightarrow> endpoints \<Rightarrow> LineConnection list \<Rightarrow> rendered_lines \<Rightarrow> error + rendered_lines" where
  "stitch_loop g flags_should_smooth_coords E [] R = Inr R"
| "stitch_loop g flags_should_smooth_coords E (connection # connections) R =
     (case stitch_connection g flags_should_smooth_coords E connection R of
        Inl e \<Rightarrow> Inl e
      | Inr R' \<Rightarrow> stitch_loop g flags_should_smooth_coords E connections R')"

text \<open>A feature made by \<open>multiLineString(coords, {id: color, stroke: color})\<close>.\<close>

record feature =
  coordinates :: "coordpair list list"
  feature_id :: string
  feature_stroke :: string

text \<open>
  \<open>renderLines\<close> after line 177, as a function of the clamped \<open>spacing\<close>. The result
  is the feature collection, or the exception, and the worker with the segments as the
  loop left them.
\<close>

definition render_with_spacing ::
  "turf \<Rightarrow> worker \<Rightarrow> real option \<Rightarrow> coordpair list \<Rightarrow> (error + feature list) \<times> worker" where
  "render_with_spacing g w spacing viewbox =
     (let flags_should_smooth_coords = spacing_below spacing 0.11
      in case segments_loop g spacing viewbox (LineSegments w) (\<lambda>key. None, []) of
           (entries', ColourSegmentsEndpoints, RenderedColourLine) \<Rightarrow>
             (case stitch_loop g flags_should_smooth_coords ColourSegmentsEndpoints
                     (LineConnections w) RenderedColourLine of
                Inl e \<Rightarrow> Inl e
              | Inr R \<Rightarrow>
                  Inr (map (\<lambda>entry. \<lparr>coordinates = snd entry, feature_id = fst entry,
                                       feature_stroke = fst entry\<rparr>) R),
              w\<lparr>LineSegments := entries'\<rparr>))"

text \<open>
  Line 177 clamps with \<open>Math.max\<close> and \<open>Math.min\<close>, which let NaN through: the
  clamped spacing is NaN or finite, never an infinity, and is handed on as \<open>None\<close> or
  \<open>Some\<close>.
\<close>

definition finite_value :: "number \<Rightarrow> real option" where
  "finite_value a = (case a of Finite x \<Rightarrow> Some x | _ \<Rightarrow> None)"

definition renderLines ::
  "turf \<Rightarrow> worker \<Rightarrow> number \<Rightarrow> coordpair list \<Rightarrow> (error + feature list) \<times> worker" where
  "renderLines g w RequestedSpacing viewbox =
     (let spacing = js_max (fl 0.00005) (js_min (fl 0.3) RequestedSpacing)
      in render_with_spacing g w (finite_value spacing) viewbox)"

definition message_request_render ::
  "approximation \<Rightarrow> turf \<Rightarrow> worker \<Rightarrow> number \<Rightarrow> number \<Rightarrow> coordpair list
     \<Rightarrow> (error + feature list) \<times> worker" where
  "message_request_render approximated g w line_width zoom viewbox =
     (let spacing = ScaleSpacing approximated line_width zoom
      in renderLines g w spacing viewbox)"

definition message_init :: "topojsonExport \<Rightarrow> worker \<Rightarrow> error option \<times> worker" where
  "message_init data w = processTopologies data w"

text \<open>
  The states the worker can be in: it starts empty, and each message handled takes it to
  the state the handler leaves, whether or not the handler threw.
\<close>

inductive reachable :: "worker \<Rightarrow> bool" where
  start: "reachable new_worker"
| init: "reachable w \<Longrightarrow> reachable (snd (message_init data w))"
| request_render:
    "reachable w \<Longrightarrow>
     reachable (snd (message_request_render approximated g w line_width zoom viewbox))"

subsection \<open>The connections as the specification words them\<close>

text \<open>
  The unsigned segment id is the index if it is not negative, else \<open>-index-1\<close>; the
  exit endpoint of \<open>prev\<close> is \<open>bottom\<close> if it is a forward reference and \<open>top\<close> if
  reversed; the entry endpoint of \<open>cur\<close> is \<open>top\<close> if forward and \<open>bottom\<close> if
  reversed. One connection per adjacent pair of a route, the first of equal ones kept.
\<close>

definition unsigned_id :: "int \<Rightarrow> int" where
  "unsigned_id index = (if 0 \<le> index then index else - index - 1)"

definition exit_endpoint :: "int \<Rightarrow> string" where
  "exit_endpoint prev = (if 0 \<le> prev then ''bottom'' else ''top'')"

definition entry_endpoint :: "int \<Rightarrow> string" where
  "entry_endpoint cur = (if 0 \<le> cur then ''top'' else ''bottom'')"

definition spec_connection :: "string \<Rightarrow> int \<times> int \<Rightarrow> LineConnection" where
  "spec_connection c pair =
     \<lparr>conn_from = (unsigned_id (fst pair), exit_endpoint (fst pair)),
      conn_to = (unsigned_id (snd pair), entry_endpoint (snd pair)),
      color = c\<rparr>"

definition adjacent_pairs :: "'a list \<Rightarrow> ('a \<times> 'a) list" where
  "adjacent_pairs xs = zip xs (tl xs)"

definition route_connections :: "line_geometry \<Rightarrow> LineConnection list" where
  "route_connections line = map (spec_connection (stroke line)) (adjacent_pairs (arcs line))"

definition dedupe :: "'a list \<Rightarrow> 'a list" where
  "dedupe xs = rev (remdups (rev xs))"

definition spec_connections :: "topojsonExport \<Rightarrow> LineConnection list" where
  "spec_connections T = dedupe (concat (map route_connections (geometries T)))"

text \<open>
  The string by which the code recognises a connection it has already made, and the
  connections on which that string determines the connection.
\<close>

definition key_of :: "LineConnection \<Rightarrow> string" where
  "key_of c = DedupeString (color c) (fst (conn_from c)) (snd (conn_from c))
                (fst (conn_to c)) (snd (conn_to c))"

definition wf_conn :: "LineConnection \<Rightarrow> bool" where
  "wf_conn c \<longleftrightarrow> 0 \<le> fst (conn_from c) \<and> 0 \<le> fst (conn_to c)
     \<and> snd (conn_from c) \<in> {''top'', ''bottom''} \<and> snd (conn_to c) \<in> {''top'', ''bottom''}"

definition conn_inv :: "LineConnection list \<Rightarrow> LineConnection list \<times> string list \<Rightarrow> bool" where
  "conn_inv prior st \<longleftrightarrow> fst st = dedupe prior \<and> snd st = map key_of (fst st)
      \<and> (\<forall>c\<in>set prior. wf_conn c)"

subsection \<open>The spacing as the specification words it\<close>



text \<open>
  \<open>clamp(x, lo, hi)\<close>, and the spacing of a render request: with \<open>w = max(1, width)\<close>
  and \<open>z\<close> the zoom rounded to two decimal places, the quotient of
  \<open>0.025 w\<^sup>2 - 0.04 w + 0.1\<close> by \<open>2\<close> to the power \<open>z - 10\<close>, clamped to
  \<open>[0.00005, 0.3]\<close>, all in the arithmetic of doubles.
\<close>

definition clamp :: "number \<Rightarrow> number \<Rightarrow> number \<Rightarrow> number" where
  "clamp x lo hi = js_max lo (js_min hi x)"






subsection \<open>The colour order as the specification words it\<close>

text \<open>
  The perceptual luminance of a 6-hex-digit colour string: \<open>R\<close>, \<open>G\<close> and \<open>B\<close> are
  the values of the hex digit pairs at the positions 1, 3 and 5, after the \<open>#\<close>.
\<close>

definition hex_pair :: "string \<Rightarrow> nat \<Rightarrow> real" where
  "hex_pair c k = real (hex_value (hex_prefix (take 2 (drop k c))))"

definition spec_luminance :: "string \<Rightarrow> real" where
  "spec_luminance c =
     0.2126 * (hex_pair c 1 / 255) powr 2.2
     + 0.7152 * (hex_pair c 3 / 255) powr 2.2
     + 0.0722 * (hex_pair c 5 / 255) powr 2.2"

subsection \<open>A geometry library for the examples\<close>

text \<open>
  The simplest library: every line has length 0, slicing, offsetting and smoothing return
  the line they are given, all distances are 0, and every line intersects every viewport.
  \<open>marking_turf\<close> differs in the smoothing, which puts its iteration count and its
  factor in front of the line, so that a smoothed line shows how it was smoothed.
\<close>

definition plain_turf :: turf where
  "plain_turf =
     \<lparr>turf_length = (\<lambda>line. 0),
      lineSliceAlong = (\<lambda>line start stop. line),
      lineOffset = (\<lambda>line offset. line),
      distance = (\<lambda>p q. 0),
      booleanIntersects = (\<lambda>viewport line. True),
      smooth = (\<lambda>cs iteration factor. cs),
      lineSliceAlong_NaN = (\<lambda>line. line),
      lineOffset_NaN = (\<lambda>line. line)\<rparr>"

definition marking_turf :: turf where
  "marking_turf = plain_turf\<lparr>smooth := (\<lambda>cs iteration factor. (real iteration, factor) # cs)\<rparr>"

subsection \<open>What a render call does to a stored segment\<close>

text \<open>
  The entry of \<open>LineSegments\<close> after a render call, against the entry before: the same
  key, geometry, top and bottom; the colours sorted by the comparator when the segment
  intersects the viewport and untouched when it does not; in both cases the same colours
  as before, each as often.
\<close>

definition segment_after_render ::
  "turf \<Rightarrow> coordpair list \<Rightarrow> string \<times> LineSegment \<Rightarrow> string \<times> LineSegment \<Rightarrow> bool" where
  "segment_after_render g viewport entry entry' \<longleftrightarrow>
     fst entry' = fst entry
     \<and> geometry (snd entry') = geometry (snd entry)
     \<and> top (snd entry') = top (snd entry)
     \<and> bottom (snd entry') = bottom (snd entry)
     \<and> colors (snd entry') =
         (if booleanIntersects g viewport (geometry (snd entry))
          then colors_sorted_by_luminosity (colors (snd entry))
          else colors (snd entry))
     \<and> mset (colors (snd entry')) = mset (colors (snd entry))"

subsection \<open>The endpoint registry as the specification words it\<close>

text \<open>
  The registry is keyed by segment id, colour, endpoint tag and variant; the key string
  of the code puts them together with colons, the variant \<open>Actual\<close> adding nothing. The
  chain of a connection is the six lookups from, from buffer, from invasive, to invasive,
  to buffer, to; the connection is stitched from them when all six are present, smoothed
  with 7 iterations and factor 0.75 when the spacing is below 0.11.
\<close>

datatype variant = Actual | Buffer | Invasive

definition variant_suffix :: "variant \<Rightarrow> string" where
  "variant_suffix v = (case v of Actual \<Rightarrow> [] | Buffer \<Rightarrow> '':buffer'' | Invasive \<Rightarrow> '':invasive'')"

definition registry_key :: "int \<times> string \<Rightarrow> string \<Rightarrow> variant \<Rightarrow> string" where
  "registry_key endpoint c v =
     ''Segment:'' @ js_string_of_int (fst endpoint) @ '':'' @ c @ '':'' @ snd endpoint
       @ variant_suffix v"

definition chain_lookups :: "endpoints \<Rightarrow> LineConnection \<Rightarrow> coordpair option list" where
  "chain_lookups E c =
     [E (registry_key (conn_from c) (color c) Actual),
      E (registry_key (conn_from c) (color c) Buffer),
      E (registry_key (conn_from c) (color c) Invasive),
      E (registry_key (conn_to c) (color c) Invasive),
      E (registry_key (conn_to c) (color c) Buffer),
      E (registry_key (conn_to c) (color c) Actual)]"

definition all_six_present :: "endpoints \<Rightarrow> LineConnection \<Rightarrow> bool" where
  "all_six_present E c \<longleftrightarrow> None \<notin> set (chain_lookups E c)"

definition stitched ::
  "turf \<Rightarrow> real option \<Rightarrow> endpoints \<Rightarrow> LineConnection \<Rightarrow> coordpair list" where
  "stitched g spacing E c =
     (if spacing_below spacing 0.11 then smooth g (map the (chain_lookups E c)) 7 0.75
      else map the (chain_lookups E c))"

subsection \<open>Invariants of the registry and of the worker\<close>

text \<open>
  Every key of the registry was written for a segment id of \<open>ids\<close> and a colour that
  has an entry in the rendered lines. The worker's segment keys are made by
  \<open>segment_key\<close>, and its connections have the endpoint tags \<open>top\<close> and \<open>bottom\<close>.
\<close>

definition endpoint_suffixes :: "string set" where
  "endpoint_suffixes =
     {'':top'', '':top:invasive'', '':top:buffer'',
      '':bottom'', '':bottom:invasive'', '':bottom:buffer''}"

definition registered :: "string set \<Rightarrow> endpoints \<Rightarrow> rendered_lines \<Rightarrow> bool" where
  "registered ids E R \<longleftrightarrow>
     (\<forall>key. E key \<noteq> None \<longrightarrow>
        (\<exists>sid c sfx. key = sid @ '':'' @ c @ sfx \<and> sid \<in> ids \<and> sfx \<in> endpoint_suffixes
           \<and> map_of R c \<noteq> None))"

definition wf_worker :: "worker \<Rightarrow> bool" where
  "wf_worker w \<longleftrightarrow>
     (\<forall>entry\<in>set (LineSegments w). fst entry \<in> range segment_key)
     \<and> (\<forall>c\<in>set (LineConnections w). wf_conn c)"

subsection \<open>The length of a line and the slice along it\<close>

text \<open>
  Modelled from the spec: \<open>length\<close> of \<open>@turf/length\<close> and \<open>lineSliceAlong\<close> of
  \<open>@turf/line-slice-along\<close>, which the repository imports and does not contain. The
  specification calls them the total line length and the slice of the line between two
  distances measured along the line. Here the length is the sum of the planar distances
  between consecutive vertices, and the slice is the polyline from the point at the start
  distance, through the vertices that follow it, to the point at the stop distance; a
  distance before the first vertex or past the last one stops there.
\<close>

definition planar_distance :: "coordpair \<Rightarrow> coordpair \<Rightarrow> real" where
  "planar_distance p q = sqrt ((fst q - fst p)\<^sup>2 + (snd q - snd p)\<^sup>2)"

fun spec_length :: "linestring \<Rightarrow> real" where
  "spec_length (p # q # qs) = planar_distance p q + spec_length (q # qs)"
| "spec_length [p] = 0"
| "spec_length [] = 0"

definition point_between :: "coordpair \<Rightarrow> coordpair \<Rightarrow> real \<Rightarrow> coordpair" where
  "point_between p q t = (fst p + t * (fst q - fst p), snd p + t * (snd q - snd p))"

fun drop_along :: "linestring \<Rightarrow> real \<Rightarrow> linestring" where
  "drop_along (p # q # qs) s =
     (if s \<le> 0 then p # q # qs
      else if planar_distance p q \<le> s then drop_along (q # qs) (s - planar_distance p q)
      else point_between p q (s / planar_distance p q) # q # qs)"
| "drop_along [p] s = [p]"
| "drop_along [] s = []"

fun take_along :: "linestring \<Rightarrow> real \<Rightarrow> linestring" where
  "take_along (p # q # qs) e =
     (if e \<le> 0 then [p]
      else if planar_distance p q \<le> e then p # take_along (q # qs) (e - planar_distance p q)
      else [p, point_between p q (e / planar_distance p q)])"
| "take_along [p] e = [p]"
| "take_along [] e = []"

definition spec_lineSliceAlong :: "linestring \<Rightarrow> real \<Rightarrow> real \<Rightarrow> linestring" where
  "spec_lineSliceAlong line startDist stopDist =
     take_along (drop_along line startDist) (stopDist - max 0 startDist)"

section \<open>Properties\<close>

subsection \<open>Keys built from numbers and colons\<close>

lemma digit_cases:
  "d < 10 \<Longrightarrow> d = 0 \<or> d = 1 \<or> d = 2 \<or> d = 3 \<or> d = 4 \<or> d = 5 \<or> d = 6 \<or> d = 7 \<or> d = 8 \<or> d = (9::nat)"
  by arith

lemma digit_char_not_colon: "d < 10 \<Longrightarrow> digit_char d \<noteq> CHR '':''"
  using digit_cases [of d] by (auto simp: digit_char_def)

lemma digit_char_inj: "d < 10 \<Longrightarrow> e < 10 \<Longrightarrow> digit_char d = digit_char e \<Longrightarrow> d = e"
  using digit_cases [of d] digit_cases [of e] by (auto simp: digit_char_def)

lemma string_of_nat_no_colon: "CHR '':'' \<notin> set (string_of_nat n)"
proof (induction n rule: string_of_nat.induct)
  case (1 n)
  show ?case
  proof (cases "n < 10")
    case True
    then show ?thesis
      using digit_char_not_colon [of n] by (simp add: string_of_nat.simps [of n])
  next
    case False
    then show ?thesis
      using 1 digit_char_not_colon [of "n mod 10"] by (simp add: string_of_nat.simps [of n])
  qed
qed

lemma string_of_nat_nonempty: "string_of_nat n \<noteq> []"
  by (simp add: string_of_nat.simps [of n])

lemma string_of_nat_inj: "string_of_nat m = string_of_nat n \<Longrightarrow> m = n"
proof (induction m arbitrary: n rule: string_of_nat.induct)
  case (1 m)
  show ?case
  proof (cases "m < 10")
    case m: True
    show ?thesis
    proof (cases "n < 10")
      case True
      with m 1(2) show ?thesis
        by (simp add: string_of_nat.simps [of m] string_of_nat.simps [of n] digit_char_inj)
    next
      case False
      with m 1(2) show ?thesis
        using string_of_nat_nonempty [of "n div 10"]
        by (simp add: string_of_nat.simps [of m] string_of_nat.simps [of n])
    qed
  next
    case m: False
    show ?thesis
    proof (cases "n < 10")
      case True
      with m 1(2) show ?thesis
        using string_of_nat_nonempty [of "m div 10"]
        by (simp add: string_of_nat.simps [of m] string_of_nat.simps [of n])
    next
      case False
      with m 1(2) have eq: "string_of_nat (m div 10) = string_of_nat (n div 10)"
        and d: "digit_char (m mod 10) = digit_char (n mod 10)"
        by (simp_all add: string_of_nat.simps [of m] string_of_nat.simps [of n])
      from 1(1) [OF m eq] have "m div 10 = n div 10" .
      moreover from d have "m mod 10 = n mod 10"
        by (intro digit_char_inj) simp_all
      ultimately show ?thesis
        by (metis div_mult_mod_eq)
    qed
  qed
qed

lemma colon_split_left:
  "CHR '':'' \<notin> set x \<Longrightarrow> CHR '':'' \<notin> set y \<Longrightarrow> x @ CHR '':'' # a = y @ CHR '':'' # b
   \<Longrightarrow> x = y \<and> a = b"
proof (induction x arbitrary: y)
  case Nil
  then show ?case by (cases y) auto
next
  case (Cons c x)
  then show ?case by (cases y) auto
qed

lemma colon_split_right:
  assumes "CHR '':'' \<notin> set x" "CHR '':'' \<notin> set y" "a @ CHR '':'' # x = b @ CHR '':'' # y"
  shows "a = b \<and> x = y"
proof -
  from assms(3) have "rev (a @ CHR '':'' # x) = rev (b @ CHR '':'' # y)" by simp
  then have "rev x @ CHR '':'' # rev a = rev y @ CHR '':'' # rev b" by simp
  with assms(1,2) have "rev x = rev y \<and> rev a = rev b"
    by (intro colon_split_left) simp_all
  then show ?thesis by simp
qed

lemma join_colon_snoc: "ys \<noteq> [] \<Longrightarrow> join_colon (ys @ [x]) = join_colon ys @ CHR '':'' # x"
  by (induction ys rule: join_colon.induct) auto

lemma join_colon_inj:
  assumes "length xs = length ys"
    and "\<forall>x\<in>set xs. CHR '':'' \<notin> set x" and "\<forall>y\<in>set ys. CHR '':'' \<notin> set y"
    and "join_colon (s # xs) = join_colon (t # ys)"
  shows "s = t \<and> xs = ys"
  using assms
proof (induction xs arbitrary: ys rule: rev_induct)
  case Nil
  then show ?case by simp
next
  case (snoc x xs)
  from snoc.prems(1) obtain y ys' where ys: "ys = ys' @ [y]"
    by (cases ys rule: rev_cases) auto
  from snoc.prems(4) have "join_colon ((s # xs) @ [x]) = join_colon ((t # ys') @ [y])"
    by (simp add: ys)
  then have "join_colon (s # xs) @ CHR '':'' # x = join_colon (t # ys') @ CHR '':'' # y"
    by (simp only: join_colon_snoc [OF list.distinct(2)])
  moreover from snoc.prems(2,3) have "CHR '':'' \<notin> set x" "CHR '':'' \<notin> set y"
    by (simp_all add: ys)
  ultimately have eq: "join_colon (s # xs) = join_colon (t # ys')" and xy: "x = y"
    using colon_split_right by blast+
  from snoc.IH [OF _ _ _ eq] snoc.prems(1,2,3) have "s = t \<and> xs = ys'"
    by (simp add: ys)
  with xy show ?case by (simp add: ys)
qed

lemma js_string_of_int_no_colon: "CHR '':'' \<notin> set (js_string_of_int i)"
  by (simp add: js_string_of_int_def string_of_nat_no_colon)

lemma js_string_of_int_inj:
  "0 \<le> i \<Longrightarrow> 0 \<le> j \<Longrightarrow> js_string_of_int i = js_string_of_int j \<Longrightarrow> i = j"
  using string_of_nat_inj [of "nat i" "nat j"] by (simp add: js_string_of_int_def)

subsection \<open>What ingestion computes in general\<close>

text \<open>
  The colours of the segment of arc \<open>i\<close> are the strokes (black for an empty one) of
  the routes whose references contain \<open>i\<close> itself, each once; and
  \<open>extractLineConnections\<close> throws exactly when some route has no reference.
\<close>

lemma set_set_insertion_order: "set (set_insertion_order seen xs) = set seen \<union> set xs"
  by (induction xs arbitrary: seen) auto

lemma distinct_set_insertion_order:
  "distinct seen \<Longrightarrow> distinct (set_insertion_order seen xs)"
  by (induction xs arbitrary: seen) auto

lemma set_filter_Some: "set (map the (filter (\<lambda>e. e \<noteq> None) xs)) = {c. Some c \<in> set xs}"
  by (induction xs) auto

lemma make_segment_colors:
  "set (colors (make_segment T i))
     = {c. \<exists>line\<in>set (geometries T). int i \<in> set (arcs line)
             \<and> c = (if stroke line = [] then ''#000000'' else stroke line)}"
proof -
  have "Some c \<in> color_if_in_segment (int i) ` set (geometries T)
      \<longleftrightarrow> (\<exists>line\<in>set (geometries T). int i \<in> set (arcs line)
             \<and> c = (if stroke line = [] then ''#000000'' else stroke line))" for c
    unfolding image_iff color_if_in_segment_def by (intro bex_cong refl) auto
  moreover have "set (colors (make_segment T i))
      = {c. Some c \<in> set (colorsInSegment T (int i))}"
    by (simp only: make_segment_def LineSegment.select_convs set_filter_Some)
  moreover have "set (colorsInSegment T (int i))
      = color_if_in_segment (int i) ` set (geometries T)"
    by (simp add: colorsInSegment_def set_set_insertion_order)
  ultimately show ?thesis by simp
qed

lemma distinct_make_segment_colors: "distinct (colors (make_segment T i))"
proof -
  have "distinct (filter (\<lambda>e. e \<noteq> None) (colorsInSegment T (int i)))"
    by (simp add: colorsInSegment_def distinct_set_insertion_order)
  then show ?thesis
    unfolding make_segment_def LineSegment.simps
    by (rule distinct_map [THEN iffD2, OF conjI]) (auto simp: inj_on_def)
qed

lemma connections_loop_throws_iff:
  "(\<exists>e. connections_loop lines st = Inl e) \<longleftrightarrow> (\<exists>line\<in>set lines. arcs line = [])"
proof (induction lines arbitrary: st)
  case Nil
  show ?case by simp
next
  case (Cons line lines)
  show ?case
  proof (cases "arcs line")
    case Nil
    then show ?thesis by (simp add: reduce_line_def)
  next
    case (Cons a rest)
    with Cons.IH [of "reduce_from (stroke line) a rest st"] show ?thesis
      by (simp add: reduce_line_def)
  qed
qed

lemma error_is_TypeError: "e = TypeError"
  by (cases e) simp

lemma extractLineConnections_throws_iff:
  "extractLineConnections T = Inl TypeError \<longleftrightarrow> (\<exists>line\<in>set (geometries T). arcs line = [])"
proof (cases "connections_loop (geometries T) ([], [])")
  case (Inl e)
  then have "\<exists>e. connections_loop (geometries T) ([], []) = Inl e" by blast
  then have "\<exists>line\<in>set (geometries T). arcs line = []"
    using connections_loop_throws_iff [of "geometries T" "([], [])"] by blast
  with Inl show ?thesis
    by (simp add: extractLineConnections_def error_is_TypeError [of e])
next
  case (Inr st)
  then have "\<not> (\<exists>e. connections_loop (geometries T) ([], []) = Inl e)" by simp
  then have "\<not> (\<exists>line\<in>set (geometries T). arcs line = [])"
    using connections_loop_throws_iff [of "geometries T" "([], [])"] by blast
  with Inr show ?thesis
    by (simp add: extractLineConnections_def)
qed

subsection \<open>Ingestion at concrete topologies\<close>

text \<open>
  C1. The claim: the colours of the segment of arc \<open>i\<close> are the strokes of the routes
  that reference \<open>i\<close> forward or reversed (\<open>-i-1\<close>). The code tests the sign of the loop
  index, which is never negative, so only forward references count: a route over the
  arcs \<open>[0, -2]\<close> traverses arc 1 reversed, and the segment of arc 1 gets no colour.
\<close>

theorem ExtractLineSegments_ignores_reversed_reference:
  "ExtractLineSegments
     \<lparr>geometries = [\<lparr>arcs = [0, - 2], stroke = ''#FF0000''\<rparr>],
      topo_arcs = [[(0, 0), (1, 1)], [(2, 2), (1, 1)]]\<rparr>
   = [(''Segment:0'',
       \<lparr>geometry = [(0, 0), (1, 1)], top = Some (0, 0), bottom = Some (1, 1),
        colors = [''#FF0000'']\<rparr>),
      (''Segment:1'',
       \<lparr>geometry = [(2, 2), (1, 1)], top = Some (2, 2), bottom = Some (1, 1),
        colors = []\<rparr>)]"
  by (simp add: ExtractLineSegments_def make_segment_def colorsInSegment_def
      color_if_in_segment_def segment_key_def js_string_of_int_def string_of_nat.simps
      digit_char_def upt_rec first_elem_def last_elem_def)

text \<open>
  C3. The claim: ingestion and rendering never throw, also for a route with no arc
  reference. \<open>reduce\<close> without an initial value throws on the empty array: ingesting a
  topology with such a route ends in a \<open>TypeError\<close> and leaves the worker empty.
\<close>

theorem processTopologies_throws_on_empty_route:
  "processTopologies
     \<lparr>geometries = [\<lparr>arcs = [], stroke = ''#FF0000''\<rparr>],
      topo_arcs = [[(0, 0), (1, 1)]]\<rparr> new_worker
   = (Some TypeError, new_worker)"
  by (simp add: processTopologies_def extractLineConnections_def reduce_line_def)

subsection \<open>The connections of a topology\<close>

lemma dedupe_snoc: "dedupe (xs @ [x]) = (if x \<in> set xs then dedupe xs else dedupe xs @ [x])"
  by (simp add: dedupe_def)

lemma set_dedupe: "set (dedupe xs) = set xs"
  by (simp add: dedupe_def)

lemma distinct_dedupe: "distinct (dedupe xs)"
  by (simp add: dedupe_def)

lemma wf_spec_connection: "wf_conn (spec_connection s pair)"
  by (simp add: wf_conn_def spec_connection_def unsigned_id_def exit_endpoint_def
      entry_endpoint_def)

lemma key_of_inj:
  assumes "wf_conn a" "wf_conn b" "key_of a = key_of b"
  shows "a = b"
proof -
  let ?xs = "[js_string_of_int (fst (conn_from a)), snd (conn_from a),
              js_string_of_int (fst (conn_to a)), snd (conn_to a)]"
  let ?ys = "[js_string_of_int (fst (conn_from b)), snd (conn_from b),
              js_string_of_int (fst (conn_to b)), snd (conn_to b)]"
  have nc: "\<forall>x\<in>set ?xs. CHR '':'' \<notin> set x" "\<forall>y\<in>set ?ys. CHR '':'' \<notin> set y"
    using assms(1,2) by (auto simp: wf_conn_def js_string_of_int_no_colon)
  from assms(3) have "join_colon (color a # ?xs) = join_colon (color b # ?ys)"
    by (simp add: key_of_def DedupeString_def)
  from join_colon_inj [OF _ nc this] have "color a = color b \<and> ?xs = ?ys"
    by simp
  with assms(1,2) have "color a = color b" "conn_from a = conn_from b" "conn_to a = conn_to b"
    by (auto simp: wf_conn_def prod_eq_iff dest: js_string_of_int_inj)
  then show ?thesis by simp
qed

lemma reduce_callback_dedupe:
  assumes "snd st = map key_of (fst st)" "\<forall>c\<in>set (fst st). wf_conn c"
  shows "reduce_callback s prev cur st =
           (if spec_connection s (prev, cur) \<in> set (fst st) then st
            else (fst st @ [spec_connection s (prev, cur)],
                  snd st @ [key_of (spec_connection s (prev, cur))]))"
proof -
  let ?c = "spec_connection s (prev, cur)"
  have "key_of ?c \<in> set (snd st) \<longleftrightarrow> ?c \<in> set (fst st)"
  proof
    assume "key_of ?c \<in> set (snd st)"
    with assms(1) obtain x where x: "x \<in> set (fst st)" "key_of ?c = key_of x"
      by auto
    from x(1) assms(2) have "wf_conn x" by simp
    from key_of_inj [OF wf_spec_connection this x(2)] x(1) show "?c \<in> set (fst st)"
      by simp
  next
    assume "?c \<in> set (fst st)"
    with assms(1) show "key_of ?c \<in> set (snd st)" by simp
  qed
  moreover have "reduce_callback s prev cur st =
      (if key_of ?c \<notin> set (snd st) then (fst st @ [?c], snd st @ [key_of ?c]) else st)"
    by (simp add: reduce_callback_def Let_def key_of_def spec_connection_def unsigned_id_def
        exit_endpoint_def entry_endpoint_def not_less)
  ultimately show ?thesis by simp
qed

lemma reduce_callback_inv:
  assumes "conn_inv prior st"
  shows "conn_inv (prior @ [spec_connection s (prev, cur)]) (reduce_callback s prev cur st)"
proof -
  from assms have "snd st = map key_of (fst st)" "\<forall>c\<in>set (fst st). wf_conn c"
    by (simp_all add: conn_inv_def set_dedupe)
  from reduce_callback_dedupe [OF this] assms show ?thesis
    by (auto simp: conn_inv_def dedupe_snoc set_dedupe wf_spec_connection)
qed

lemma reduce_from_inv:
  "conn_inv prior st \<Longrightarrow>
   conn_inv (prior @ map (spec_connection s) (adjacent_pairs (prev # rest)))
     (reduce_from s prev rest st)"
proof (induction rest arbitrary: prev prior st)
  case Nil
  then show ?case by (simp add: adjacent_pairs_def)
next
  case (Cons cur rest)
  from Cons.IH [OF reduce_callback_inv [OF Cons.prems], of s prev cur cur]
  show ?case by (simp add: adjacent_pairs_def)
qed

lemma connections_loop_inv:
  "conn_inv prior st \<Longrightarrow> \<forall>line\<in>set lines. arcs line \<noteq> [] \<Longrightarrow>
   \<exists>st'. connections_loop lines st = Inr st'
     \<and> conn_inv (prior @ concat (map route_connections lines)) st'"
proof (induction lines arbitrary: prior st)
  case Nil
  then show ?case by simp
next
  case (Cons line lines)
  from Cons.prems(2) obtain a rest where ar: "arcs line = a # rest"
    by (cases "arcs line") auto
  have "conn_inv (prior @ route_connections line) (reduce_from (stroke line) a rest st)"
    using reduce_from_inv [OF Cons.prems(1)] by (simp add: route_connections_def ar)
  from Cons.IH [OF this] Cons.prems(2) show ?case
    by (simp add: reduce_line_def ar)
qed

text \<open>
  C2. When no route has an empty list of arc references, ingestion returns, for every
  adjacent pair \<open>(prev, cur)\<close> of every route, the connection with the unsigned ids, the
  exit endpoint of \<open>prev\<close>, the entry endpoint of \<open>cur\<close> and the route's colour, in
  the order of first occurrence and each once: the string key separates two connections
  exactly when their tuples \<open>(color, fromId, fromTag, toId, toTag)\<close> differ.
\<close>

theorem extractLineConnections_adjacent_pairs_deduplicated:
  assumes "\<forall>line\<in>set (geometries T). arcs line \<noteq> []"
  shows "extractLineConnections T = Inr (spec_connections T)
     \<and> distinct (spec_connections T)
     \<and> set (spec_connections T)
         = (\<Union>line\<in>set (geometries T).
              spec_connection (stroke line) ` set (adjacent_pairs (arcs line)))"
proof -
  have "conn_inv [] ([], [])"
    by (simp add: conn_inv_def dedupe_def)
  from connections_loop_inv [OF this assms]
  have "extractLineConnections T = Inr (spec_connections T)"
    by (auto simp: extractLineConnections_def conn_inv_def spec_connections_def)
  moreover have "set (spec_connections T)
         = (\<Union>line\<in>set (geometries T).
              spec_connection (stroke line) ` set (adjacent_pairs (arcs line)))"
    by (simp add: spec_connections_def set_dedupe route_connections_def)
  ultimately show ?thesis
    by (simp add: spec_connections_def distinct_dedupe)
qed

theorem extractLineConnections_adjacent_pairs_deduplicated_witness:
  "extractLineConnections
     \<lparr>geometries = [\<lparr>arcs = [0, 1, - 1, 0, 1], stroke = ''#FF0000''\<rparr>],
      topo_arcs = [[(0, 0), (1, 1)], [(1, 1), (2, 2)]]\<rparr>
   = Inr [\<lparr>conn_from = (0, ''bottom''), conn_to = (1, ''top''), color = ''#FF0000''\<rparr>,
          \<lparr>conn_from = (1, ''bottom''), conn_to = (0, ''bottom''), color = ''#FF0000''\<rparr>,
          \<lparr>conn_from = (0, ''top''), conn_to = (0, ''top''), color = ''#FF0000''\<rparr>]"
  using extractLineConnections_adjacent_pairs_deduplicated
    [of "\<lparr>geometries = [\<lparr>arcs = [0, 1, - 1, 0, 1], stroke = ''#FF0000''\<rparr>],
          topo_arcs = [[(0, 0), (1, 1)], [(1, 1), (2, 2)]]\<rparr>"]
  by (simp add: spec_connections_def dedupe_def route_connections_def adjacent_pairs_def
      spec_connection_def unsigned_id_def exit_endpoint_def entry_endpoint_def)

subsection \<open>Rounding to a double\<close>

text \<open>
  \<open>pow2 k\<close> is \<open>2\<^sup>k\<close>. A real in the binade of \<open>e\<close> rounds to the multiple of
  \<open>2\<^sup>e\<^sup>-\<^sup>5\<^sup>2\<close> nearest to it; a real of \<open>2\<^sup>1\<^sup>0\<^sup>2\<^sup>4\<close> or more rounds to
  infinity; an integer below \<open>2\<^sup>5\<^sup>3\<close> in absolute value is a double.
\<close>

lemma pow2_powr: "pow2 k = 2 powr (real_of_int k)"
  by (cases "0 \<le> k") (simp_all add: pow2_def powr_realpow [symmetric] powr_minus_divide)

lemma pow2_pos: "0 < pow2 k"
  by (simp add: pow2_powr)




lemma binade_eq:
  assumes "pow2 e \<le> \<bar>x\<bar>" and "\<bar>x\<bar> < pow2 (e + 1)"
  shows "binade x = e"
proof -
  have pos: "0 < \<bar>x\<bar>" using assms(1) pow2_pos [of e] by linarith
  have "real_of_int e \<le> log 2 \<bar>x\<bar>"
    using assms(1) pos by (simp add: pow2_powr le_log_iff)
  moreover have "log 2 \<bar>x\<bar> < real_of_int (e + 1)"
    using assms(2) pos by (simp add: pow2_powr log_less_iff)
  ultimately show ?thesis
    unfolding binade_def by (simp add: floor_eq_iff)
qed










lemma fl_eval:
  assumes "pow2 e \<le> \<bar>x\<bar>" and "\<bar>x\<bar> < pow2 (e + 1)" and "- 1022 \<le> e"
    and "round_half_even (x / pow2 (e - 52)) = n"
    and "\<bar>of_int n * pow2 (e - 52)\<bar> < pow2 1024"
  shows "fl x = Finite (of_int n * pow2 (e - 52))"
proof -
  have "x \<noteq> 0" using assms(1) pow2_pos [of e] by auto
  moreover have "max (binade x) (- 1022) = e"
    using binade_eq [OF assms(1,2)] assms(3) by simp
  ultimately show ?thesis
    using assms(4,5) by (simp add: fl_def nearest_def Let_def)
qed



























lemma double_0_00005: "fl (1 / 20000) = Finite (7378697629483821 / 147573952589676412928)"
  using fl_eval [of "- 15" "1 / 20000" 7378697629483821]
  by (simp add: pow2_def round_half_even_def)

lemma double_0_3: "fl (3 / 10) = Finite (5404319552844595 / 18014398509481984)"
  using fl_eval [of "- 2" "3 / 10" 5404319552844595]
  by (simp add: pow2_def round_half_even_def)

lemma double_0_02: "fl (1 / 50) = Finite (5764607523034235 / 288230376151711744)"
  using fl_eval [of "- 6" "1 / 50" 5764607523034235]
  by (simp add: pow2_def round_half_even_def)








lemma fl_0_015_times_100: "fl (27021597764222975 / 18014398509481984) = Finite (3 / 2)"
  using fl_eval [of 0 "27021597764222975 / 18014398509481984" 6755399441055744]
  by (simp add: pow2_def round_half_even_def)













subsection \<open>The spacing\<close>

lemma js_add_NaN [simp]: "js_add a NaN = NaN" "js_add NaN b = NaN"
  by (cases a) simp_all

lemma js_mul_NaN [simp]: "js_mul a NaN = NaN" "js_mul NaN b = NaN"
  by (cases a) simp_all

lemma js_div_NaN [simp]: "js_div a NaN = NaN" "js_div NaN b = NaN"
  by (cases a) simp_all

lemma js_max_NaN [simp]: "js_max a NaN = NaN" "js_max NaN b = NaN"
  by (cases a) simp_all

lemma js_min_NaN [simp]: "js_min a NaN = NaN" "js_min NaN b = NaN"
  by (cases a) simp_all




text \<open>
  The zoom is multiplied by 100 in double arithmetic before \<open>Math.round\<close> sees it: the
  double nearest \<open>0.015\<close> lies below \<open>0.015\<close>, its product with 100 rounds to
  \<open>1.5\<close>, and \<open>z\<close> is the double nearest \<open>0.02\<close>.
\<close>

lemma rounded_zoom_0_015:
  "js_div (js_round (js_mul (Finite (1080863910568919 / 72057594037927936)) (Finite 100)))
     (Finite 100)
   = Finite (5764607523034235 / 288230376151711744)"
  by (simp add: fl_0_015_times_100 double_0_02)











text \<open>
  A width or a zoom that is NaN gives NaN, on every engine. So do the width \<open>1e200\<close> and
  the zoom \<open>1e5\<close> on an engine whose power is correctly rounded: the square of the
  width and the power of 2 both overflow, and infinity divided by infinity is NaN.
\<close>

lemma ScaleSpacing_NaN_width: "ScaleSpacing approximated NaN zoom = NaN"
  by (simp add: ScaleSpacing_def js_exponentiate_def js_sub_def split: number.splits)






lemma clamp_NaN: "js_max lo (js_min hi a) = NaN \<longleftrightarrow> lo = NaN \<or> hi = NaN \<or> a = NaN"
  by (cases lo; cases hi; cases a) simp_all











lemma ScaleSpacing_NaN_zoom: "ScaleSpacing approximated width NaN = NaN"
  by (simp add: ScaleSpacing_def js_exponentiate_def js_sub_def)










subsection \<open>The colour sort and the stored segments\<close>

lemmas parse_simps = js_substring_def Let_def parseInt16_def is_js_whitespace_def hex_digit_def
  hex_value_def channel_def js_pow22_def

lemma luminosity_red: "luminosity ''#FF0000''
   = Some (0.2126 * (1 / 17) powr 2.2 + 0.7152 * (1 / 17) powr 2.2 + 0.0722 * (256 / 17) powr 2.2)"
  by (simp add: luminosity_def parse_simps)

lemma luminosity_green: "luminosity ''#00FF00'' = Some 0.0722"
  by (simp add: luminosity_def parse_simps)

lemma luminosity_blue: "luminosity ''#0000FF'' = Some 0"
  by (simp add: luminosity_def parse_simps)

lemma compare_red_green: "0 < compare_luminosity ''#FF0000'' ''#00FF00''"
proof -
  define a :: real where "a = (1 / 17) powr 2.2"
  define b :: real where "b = (256 / 17) powr 2.2"
  have "(1::real) powr 2.2 < (256 / 17) powr 2.2"
    by (intro powr_less_mono2) simp_all
  then have b: "1 < b" by (simp add: b_def)
  have a: "0 \<le> a" by (simp add: a_def)
  from a b have "0 < 0.2126 * a + 0.7152 * a + 0.0722 * b - 0.0722"
    by simp
  then show ?thesis
    by (simp add: compare_luminosity_def luminosity_red luminosity_green a_def b_def)
qed

text \<open>
  C5. The claim: the colours are stacked by ascending luminance
  \<open>0.2126 r + 0.7152 g + 0.0722 b\<close>, where \<open>r\<close>, \<open>g\<close> and \<open>b\<close> are the three
  two-digit channels divided by 255 and raised to the power 2.2. The comparator calls \<open>substring(1, 2)\<close>, \<open>substring(3, 2)\<close> and
  \<open>substring(5, 2)\<close>, whose second argument is an end index, not a length: it reads
  the first red digit, the second red digit and the three digits from the second red
  digit on. Red \<open>#FF0000\<close> has luminance 0.2126 and green \<open>#00FF00\<close> has 0.7152, so
  red comes first in the claim's order; the code gives green 0.0722 and red more, and
  sorts green first.
\<close>

theorem colors_sorted_by_luminosity_red_green:
  "colors_sorted_by_luminosity [''#FF0000'', ''#00FF00''] = [''#00FF00'', ''#FF0000'']
   \<and> luminosity ''#00FF00'' = Some 0.0722
   \<and> spec_luminance ''#FF0000'' = 0.2126 \<and> spec_luminance ''#00FF00'' = 0.7152"
  using compare_red_green
  by (simp add: colors_sorted_by_luminosity_def js_sort_def luminosity_green
      spec_luminance_def hex_pair_def hex_digit_def hex_value_def)

lemma mset_insert_sorted: "mset (insert_sorted cmp x ys) = add_mset x (mset ys)"
  by (induction ys) simp_all

lemma mset_js_sort: "mset (js_sort cmp xs) = mset xs"
  by (induction xs) (simp_all add: js_sort_def mset_insert_sorted)

lemma render_segment_segment:
  "segment_after_render g viewport (segment_id, segment)
     (segment_id, fst (render_segment g spacing viewport segment_id segment st))"
  by (simp add: segment_after_render_def render_segment_def Let_def
      colors_sorted_by_luminosity_def mset_js_sort)

lemma segments_loop_keys:
  "map fst (fst (segments_loop g spacing viewport entries st)) = map fst entries"
proof (induction entries arbitrary: st)
  case Nil
  show ?case by simp
next
  case (Cons entry entries)
  obtain segment' st' where r:
    "render_segment g spacing viewport (fst entry) (snd entry) st = (segment', st')"
    by (cases "render_segment g spacing viewport (fst entry) (snd entry) st")
  from Cons.IH [of st'] show ?case
    by (auto simp: r split: prod.splits)
qed

lemma renderLines_worker:
  "snd (renderLines g w RequestedSpacing viewbox)
     = w\<lparr>LineSegments :=
           fst (segments_loop g (finite_value (clamp RequestedSpacing (fl 0.00005) (fl 0.3)))
                  viewbox (LineSegments w) (\<lambda>key. None, []))\<rparr>"
  by (simp add: renderLines_def render_with_spacing_def clamp_def Let_def split: prod.splits)

text \<open>
  C4, as amended. A render call leaves the connections, and of every stored segment the
  key, the geometry, the top, the bottom and the colours as a multiset, as they were.
  The order of the colours is not kept: \<open>segment.colors.sort\<close> sorts the stored array
  of every segment that intersects the viewport in place.
\<close>

theorem renderLines_sorts_stored_colors_in_place:
  "LineConnections (snd (renderLines g w RequestedSpacing viewbox)) = LineConnections w
   \<and> list_all2 (segment_after_render g viewbox) (LineSegments w)
        (LineSegments (snd (renderLines g w RequestedSpacing viewbox)))"
proof -
  have "list_all2 (segment_after_render g viewport) entries
     (fst (segments_loop g spacing viewport entries st))" for viewport spacing entries st
  proof (induction entries arbitrary: st)
  case Nil
  show ?case by simp
next
  case (Cons entry entries)
  obtain segment' st' where r:
    "render_segment g spacing viewport (fst entry) (snd entry) st = (segment', st')"
    by (cases "render_segment g spacing viewport (fst entry) (snd entry) st")
  obtain entries' st'' where l: "segments_loop g spacing viewport entries st' = (entries', st'')"
    by (cases "segments_loop g spacing viewport entries st'")
  from render_segment_segment [of g viewport "fst entry" "snd entry" spacing st] r
  have "segment_after_render g viewport entry (fst entry, segment')" by simp
  moreover from Cons.IH [of st'] l have "list_all2 (segment_after_render g viewport) entries entries'"
    by simp
  ultimately show ?case by (simp add: r l)
qed
  then show ?thesis
    by (simp add: renderLines_worker)
qed

lemma processTopologies_green_blue:
  "processTopologies
     \<lparr>geometries = [\<lparr>arcs = [0], stroke = ''#00FF00''\<rparr>, \<lparr>arcs = [0], stroke = ''#0000FF''\<rparr>],
      topo_arcs = [[(0, 0), (1, 1)]]\<rparr> new_worker
   = (None,
      \<lparr>LineSegments =
         [(''Segment:0'',
           \<lparr>geometry = [(0, 0), (1, 1)], top = Some (0, 0), bottom = Some (1, 1),
            colors = [''#00FF00'', ''#0000FF'']\<rparr>)],
       LineConnections = []\<rparr>)"
  by (simp add: processTopologies_def extractLineConnections_def reduce_line_def
      ExtractLineSegments_def make_segment_def colorsInSegment_def
      color_if_in_segment_def segment_key_def js_string_of_int_def string_of_nat.simps
      digit_char_def first_elem_def last_elem_def)

lemma sorted_green_blue:
  "colors_sorted_by_luminosity [''#00FF00'', ''#0000FF''] = [''#0000FF'', ''#00FF00'']"
  by (simp add: colors_sorted_by_luminosity_def js_sort_def compare_luminosity_def
      luminosity_green luminosity_blue)

text \<open>
  C4 as stated fails: after ingesting two routes over one arc, green before blue, the
  segment stores the colours in that order; a render call whose viewport contains the
  arc leaves them stored blue before green.
\<close>

theorem renderLines_reorders_stored_colors:
  "map (colors \<circ> snd)
     (LineSegments (snd (processTopologies
        \<lparr>geometries = [\<lparr>arcs = [0], stroke = ''#00FF00''\<rparr>,
                       \<lparr>arcs = [0], stroke = ''#0000FF''\<rparr>],
         topo_arcs = [[(0, 0), (1, 1)]]\<rparr> new_worker)))
     = [[''#00FF00'', ''#0000FF'']]
   \<and> map (colors \<circ> snd)
     (LineSegments (snd (renderLines plain_turf
        (snd (processTopologies
           \<lparr>geometries = [\<lparr>arcs = [0], stroke = ''#00FF00''\<rparr>,
                          \<lparr>arcs = [0], stroke = ''#0000FF''\<rparr>],
            topo_arcs = [[(0, 0), (1, 1)]]\<rparr> new_worker))
        (Finite (1 / 64)) [(- 1, - 1), (2, - 1), (2, 2), (- 1, 2), (- 1, - 1)])))
     = [[''#0000FF'', ''#00FF00'']]"
proof -
  let ?w = "\<lparr>LineSegments =
         [(''Segment:0'',
           \<lparr>geometry = [(0, 0), (1, 1)], top = Some (0, 0), bottom = Some (1, 1),
            colors = [''#00FF00'', ''#0000FF'']\<rparr>)],
       LineConnections = []\<rparr>"
  let ?vb = "[(- 1, - 1), (2, - 1), (2, 2), (- 1, 2), (- 1, - 1)] :: coordpair list"
  have "map (colors \<circ> snd) (LineSegments (snd (renderLines plain_turf ?w (Finite (1 / 64)) ?vb)))
      = [[''#0000FF'', ''#00FF00'']]"
    by (simp add: renderLines_worker render_segment_def Let_def plain_turf_def
        sorted_green_blue split: prod.splits)
  then show ?thesis
    by (simp add: processTopologies_green_blue)
qed

theorem renderLines_sorts_stored_colors_in_place_witness:
  "snd (renderLines plain_turf
     \<lparr>LineSegments =
        [(''Segment:0'',
          \<lparr>geometry = [(0, 0), (1, 1)], top = Some (0, 0), bottom = Some (1, 1),
           colors = [''#FF0000'', ''#00FF00'']\<rparr>)],
      LineConnections = []\<rparr> (Finite (1 / 64))
     [(- 1, - 1), (2, - 1), (2, 2), (- 1, 2), (- 1, - 1)])
   = \<lparr>LineSegments =
        [(''Segment:0'',
          \<lparr>geometry = [(0, 0), (1, 1)], top = Some (0, 0), bottom = Some (1, 1),
           colors = [''#00FF00'', ''#FF0000'']\<rparr>)],
      LineConnections = []\<rparr>"
proof -
  let ?w = "\<lparr>LineSegments =
        [(''Segment:0'',
          \<lparr>geometry = [(0, 0), (1, 1)], top = Some (0, 0), bottom = Some (1, 1),
           colors = [''#FF0000'', ''#00FF00'']\<rparr>)],
      LineConnections = []\<rparr>"
  let ?vb = "[(- 1, - 1), (2, - 1), (2, 2), (- 1, 2), (- 1, - 1)] :: coordpair list"
  obtain w' where w': "snd (renderLines plain_turf ?w (Finite (1 / 64)) ?vb) = w'" by simp
  have sorted: "colors_sorted_by_luminosity [''#FF0000'', ''#00FF00''] = [''#00FF00'', ''#FF0000'']"
    using compare_red_green by (simp add: colors_sorted_by_luminosity_def js_sort_def)
  from renderLines_sorts_stored_colors_in_place [of plain_turf ?w "Finite (1 / 64)" ?vb]
  have "w' = \<lparr>LineSegments =
        [(''Segment:0'',
          \<lparr>geometry = [(0, 0), (1, 1)], top = Some (0, 0), bottom = Some (1, 1),
           colors = [''#00FF00'', ''#FF0000'']\<rparr>)],
      LineConnections = []\<rparr>"
    unfolding w'
    by (cases w') (auto simp: list_all2_Cons1 segment_after_render_def plain_turf_def sorted
        intro: LineSegment.equality)
  with w' show ?thesis by simp
qed

subsection \<open>Stitching\<close>

lemma connection_coords_chain: "connection_coords E c = chain_lookups E c"
  by (simp add: connection_coords_def chain_lookups_def registry_key_def variant_suffix_def Let_def)

lemma stitch_connection_all_present:
  "all_six_present E c \<Longrightarrow> map_of R (color c) = Some ls \<Longrightarrow>
   stitch_connection g (spacing_below spacing 0.11) E c R
     = Inr (AList.update (color c) (ls @ [stitched g spacing E c]) R)"
  by (simp add: stitch_connection_def connection_coords_chain all_six_present_def stitched_def Let_def)

lemma stitch_connection_some_absent:
  "\<not> all_six_present E c \<Longrightarrow> stitch_connection g flag E c R = Inr R"
  by (simp add: stitch_connection_def connection_coords_chain all_six_present_def Let_def)

lemma update_present_keys: "map_of R k = Some ls \<Longrightarrow> map fst (AList.update k v R) = map fst R"
  by (simp add: update_keys image_iff) (metis map_of_SomeD fst_conv)

text \<open>
  The stitching loop returns the rendered lines with the same colours in the same order,
  and each colour's list extended by the chains of exactly those connections of that
  colour whose six lookups are all present, in the order of the connections, provided
  that a connection with six present lookups has a colour with an entry.
\<close>

lemma stitch_loop_result:
  assumes "\<forall>c\<in>set connections. all_six_present E c \<longrightarrow> map_of R (color c) \<noteq> None"
  shows "\<exists>R'. stitch_loop g (spacing_below spacing 0.11) E connections R = Inr R'
     \<and> map fst R' = map fst R
     \<and> (\<forall>k ls. map_of R k = Some ls \<longrightarrow>
           map_of R' k
             = Some (ls @ map (stitched g spacing E)
                           (filter (\<lambda>c. color c = k \<and> all_six_present E c) connections)))"
  using assms
proof (induction connections arbitrary: R)
  case Nil
  then show ?case by simp
next
  case (Cons c connections)
  show ?case
  proof (cases "all_six_present E c")
    case False
    from Cons.prems have "\<forall>c\<in>set connections. all_six_present E c \<longrightarrow> map_of R (color c) \<noteq> None"
      by simp
    from Cons.IH [OF this] False show ?thesis
      by (simp add: stitch_connection_some_absent)
  next
    case True
    with Cons.prems obtain ls0 where ls0: "map_of R (color c) = Some ls0" by auto
    let ?R1 = "AList.update (color c) (ls0 @ [stitched g spacing E c]) R"
    have step: "stitch_connection g (spacing_below spacing 0.11) E c R = Inr ?R1"
      by (rule stitch_connection_all_present [OF True ls0])
    have keys: "map fst ?R1 = map fst R"
      by (rule update_present_keys [OF ls0])
    have m1: "map_of ?R1 = (map_of R)(color c \<mapsto> ls0 @ [stitched g spacing E c])"
      by (rule update_conv')
    from Cons.prems have "\<forall>c\<in>set connections. all_six_present E c \<longrightarrow> map_of ?R1 (color c) \<noteq> None"
      by (simp add: m1)
    from Cons.IH [OF this] obtain R' where R':
      "stitch_loop g (spacing_below spacing 0.11) E connections ?R1 = Inr R'"
      "map fst R' = map fst ?R1"
      "\<forall>k ls. map_of ?R1 k = Some ls \<longrightarrow>
           map_of R' k
             = Some (ls @ map (stitched g spacing E)
                           (filter (\<lambda>c. color c = k \<and> all_six_present E c) connections))"
      by blast
    have "\<forall>k ls. map_of R k = Some ls \<longrightarrow>
           map_of R' k
             = Some (ls @ map (stitched g spacing E)
                           (filter (\<lambda>c. color c = k \<and> all_six_present E c) (c # connections)))"
    proof (intro allI impI)
      fix k ls
      assume k: "map_of R k = Some ls"
      show "map_of R' k
             = Some (ls @ map (stitched g spacing E)
                           (filter (\<lambda>c. color c = k \<and> all_six_present E c) (c # connections)))"
      proof (cases "k = color c")
        case True
        with k ls0 have "ls = ls0" by simp
        moreover from True have "map_of ?R1 k = Some (ls0 @ [stitched g spacing E c])"
          by (simp add: m1)
        ultimately show ?thesis
          using R'(3) True \<open>all_six_present E c\<close> by simp
      next
        case False
        with k have "map_of ?R1 k = Some ls" by (simp add: m1)
        with R'(3) False show ?thesis by auto
      qed
    qed
    with R'(1,2) step keys show ?thesis by simp
  qed
qed

lemma stitch_loop_returns:
  assumes "\<forall>c\<in>set connections. None \<notin> set (connection_coords E c)
             \<longrightarrow> map_of R (color c) \<noteq> None"
  shows "\<exists>R'. stitch_loop g flag E connections R = Inr R'"
  using assms
proof (induction connections arbitrary: R)
  case Nil
  show ?case by simp
next
  case (Cons c connections)
  show ?case
  proof (cases "None \<notin> set (connection_coords E c)")
    case False
    then have "stitch_connection g flag E c R = Inr R"
      by (simp add: stitch_connection_def Let_def)
    with Cons show ?thesis by simp
  next
    case True
    with Cons.prems obtain ls where ls: "map_of R (color c) = Some ls" by auto
    let ?R1 = "AList.update (color c)
      (ls @ [if flag then smooth g (map the (connection_coords E c)) 7 0.75
             else map the (connection_coords E c)]) R"
    from True ls have step: "stitch_connection g flag E c R = Inr ?R1"
      by (simp add: stitch_connection_def Let_def)
    from Cons.prems
    have "\<forall>c\<in>set connections. None \<notin> set (connection_coords E c)
             \<longrightarrow> map_of ?R1 (color c) \<noteq> None"
      by (simp add: update_conv')
    from Cons.IH [OF this] step show ?thesis by simp
  qed
qed

subsection \<open>The registry only holds keys of rendered colours\<close>

lemma registered_upd:
  assumes "registered ids E R" "sid \<in> ids" "sfx \<in> endpoint_suffixes" "map_of R c \<noteq> None"
  shows "registered ids (E(sid @ '':'' @ c @ sfx := v)) R"
  unfolding registered_def
proof (intro allI impI)
  fix key
  assume key: "(E(sid @ '':'' @ c @ sfx := v)) key \<noteq> None"
  show "\<exists>sid c sfx. key = sid @ '':'' @ c @ sfx \<and> sid \<in> ids \<and> sfx \<in> endpoint_suffixes
           \<and> map_of R c \<noteq> None"
  proof (cases "key = sid @ '':'' @ c @ sfx")
    case True
    with assms(2,3,4) show ?thesis by blast
  next
    case False
    with key have "E key \<noteq> None" by simp
    with assms(1) show ?thesis unfolding registered_def by blast
  qed
qed

lemma registered_mono:
  assumes "registered ids E R" "\<forall>c. map_of R c \<noteq> None \<longrightarrow> map_of R' c \<noteq> None"
  shows "registered ids E R'"
  using assms unfolding registered_def by blast

lemma render_color_registered:
  assumes "registered ids (fst st) (snd st)" "segment_id \<in> ids"
  shows "registered ids
           (fst (render_color g spacing fs segment_id line_clipped colours totallines i st))
           (snd (render_color g spacing fs segment_id line_clipped colours totallines i st))"
proof -
  define c where "c = colours ! i"
  define R' where "R' = snd (render_color g spacing fs segment_id line_clipped colours totallines i st)"
  have R': "map_of R' = (map_of (snd st))(c \<mapsto> the (map_of R' c))"
    by (auto simp: R'_def c_def render_color_def Let_def update_conv' split: option.splits)
  then have c: "map_of R' c \<noteq> None"
    by (metis fun_upd_same option.distinct(1))
  from R' have "\<forall>k. map_of (snd st) k \<noteq> None \<longrightarrow> map_of R' k \<noteq> None"
    by (metis fun_upd_apply option.distinct(1))
  from registered_mono [OF assms(1) this] have r0: "registered ids (fst st) R'" .
  have sfx: "'':top'' \<in> endpoint_suffixes" "'':top:invasive'' \<in> endpoint_suffixes"
    "'':top:buffer'' \<in> endpoint_suffixes" "'':bottom'' \<in> endpoint_suffixes"
    "'':bottom:invasive'' \<in> endpoint_suffixes" "'':bottom:buffer'' \<in> endpoint_suffixes"
    by (simp_all add: endpoint_suffixes_def)
  note upd = registered_upd [OF _ assms(2) _ c]
  have "registered ids
     (fst (render_color g spacing fs segment_id line_clipped colours totallines i st)) R'"
    unfolding render_color_def Let_def fst_conv c_def [symmetric]
    by (intro upd sfx r0)
  then show ?thesis by (simp add: R'_def)
qed

lemma fold_render_color_registered:
  assumes "registered ids (fst st) (snd st)" "segment_id \<in> ids"
  shows "registered ids
     (fst (fold (render_color g spacing fs segment_id line_clipped colours totallines) is st))
     (snd (fold (render_color g spacing fs segment_id line_clipped colours totallines) is st))"
  using assms(1)
proof (induction "is" arbitrary: st)
  case Nil
  then show ?case by simp
next
  case (Cons i "is")
  from Cons.IH [OF render_color_registered [OF Cons.prems assms(2)]] show ?case by simp
qed

lemma render_segment_registered:
  assumes "registered ids (fst st) (snd st)" "segment_id \<in> ids"
  shows "registered ids
     (fst (snd (render_segment g spacing viewport segment_id segment st)))
     (snd (snd (render_segment g spacing viewport segment_id segment st)))"
  using assms fold_render_color_registered [OF assms]
  by (simp add: render_segment_def Let_def)

lemma segments_loop_registered:
  assumes "\<forall>entry\<in>set entries. fst entry \<in> ids" "registered ids (fst st) (snd st)"
  shows "registered ids
     (fst (snd (segments_loop g spacing viewport entries st)))
     (snd (snd (segments_loop g spacing viewport entries st)))"
  using assms
proof (induction entries arbitrary: st)
  case Nil
  then show ?case by simp
next
  case (Cons entry entries)
  obtain segment' st' where r:
    "render_segment g spacing viewport (fst entry) (snd entry) st = (segment', st')"
    by (cases "render_segment g spacing viewport (fst entry) (snd entry) st")
  from Cons.prems render_segment_registered [of ids st "fst entry" g spacing viewport "snd entry"]
  have "registered ids (fst st') (snd st')" by (simp add: r)
  from Cons.IH [OF _ this] Cons.prems(1) show ?case
    by (auto simp: r split: prod.splits)
qed

lemma registered_empty: "registered ids (\<lambda>key. None) []"
  by (simp add: registered_def)

lemma endpoint_suffixes_cases: "sfx \<in> endpoint_suffixes \<Longrightarrow>
   sfx = '':top'' \<or> sfx = '':top:invasive'' \<or> sfx = '':top:buffer''
    \<or> sfx = '':bottom'' \<or> sfx = '':bottom:invasive'' \<or> sfx = '':bottom:buffer''"
  by (simp add: endpoint_suffixes_def)

lemma suffix_tag_only:
  assumes eq: "c @ '':'' @ tag = c' @ sfx" and tag: "CHR '':'' \<notin> set tag"
    and "sfx = CHR '':'' # x" "CHR '':'' \<notin> set x"
  shows "c = c' \<and> tag = x"
proof -
  from eq assms(3) have "c @ CHR '':'' # tag = c' @ CHR '':'' # x" by simp
  from colon_split_right [OF tag assms(4) this] show ?thesis .
qed

lemma suffix_tag_variant:
  assumes eq: "c @ '':'' @ tag = c' @ sfx" and tag: "CHR '':'' \<notin> set tag"
    and "sfx = y @ CHR '':'' # x" "CHR '':'' \<notin> set x"
  shows "tag = x"
proof -
  from eq assms(3) have "c @ CHR '':'' # tag = (c' @ y) @ CHR '':'' # x" by simp
  from colon_split_right [OF tag assms(4) this] show ?thesis by simp
qed

lemma registered_actual_color:
  assumes "registered (range segment_key) E R" "tag \<in> {''top'', ''bottom''}"
    and "E (registry_key (n, tag) c Actual) \<noteq> None"
  shows "map_of R c \<noteq> None"
proof -
  from assms(1,3) obtain sid c' sfx where k:
    "registry_key (n, tag) c Actual = sid @ '':'' @ c' @ sfx" "sid \<in> range segment_key"
    "sfx \<in> endpoint_suffixes" "map_of R c' \<noteq> None"
    unfolding registered_def by blast
  from k(2) obtain m where sid: "sid = segment_key m" by blast
  from k(1) have "js_string_of_int n @ CHR '':'' # (c @ '':'' @ tag)
      = js_string_of_int (int m) @ CHR '':'' # (c' @ sfx)"
    by (simp add: registry_key_def variant_suffix_def sid segment_key_def)
  then have eq: "c @ '':'' @ tag = c' @ sfx"
    by (rule colon_split_left [OF js_string_of_int_no_colon js_string_of_int_no_colon,
          THEN conjunct2])
  from assms(2) have tag: "CHR '':'' \<notin> set tag" by auto
  note one = suffix_tag_only [OF eq tag] and two = suffix_tag_variant [OF eq tag]
  from endpoint_suffixes_cases [OF k(3)] have "c = c'"
  proof (elim disjE)
    assume "sfx = '':top''"
    then show ?thesis using one [of "''top''"] by simp
  next
    assume "sfx = '':top:invasive''"
    then have "tag = ''invasive''" using two [of "'':top''" "''invasive''"] by simp
    with assms(2) show ?thesis by simp
  next
    assume "sfx = '':top:buffer''"
    then have "tag = ''buffer''" using two [of "'':top''" "''buffer''"] by simp
    with assms(2) show ?thesis by simp
  next
    assume "sfx = '':bottom''"
    then show ?thesis using one [of "''bottom''"] by simp
  next
    assume "sfx = '':bottom:invasive''"
    then have "tag = ''invasive''" using two [of "'':bottom''" "''invasive''"] by simp
    with assms(2) show ?thesis by simp
  next
    assume "sfx = '':bottom:buffer''"
    then have "tag = ''buffer''" using two [of "'':bottom''" "''buffer''"] by simp
    with assms(2) show ?thesis by simp
  qed
  with k(4) show ?thesis by simp
qed

lemma reduce_callback_wf:
  "\<forall>c\<in>set (fst st). wf_conn c \<Longrightarrow> \<forall>c\<in>set (fst (reduce_callback s prev cur st)). wf_conn c"
  by (simp add: reduce_callback_def Let_def wf_conn_def)

lemma reduce_from_wf:
  "\<forall>c\<in>set (fst st). wf_conn c \<Longrightarrow> \<forall>c\<in>set (fst (reduce_from s prev rest st)). wf_conn c"
proof (induction rest arbitrary: prev st)
  case Nil
  then show ?case by simp
next
  case (Cons cur rest)
  from Cons.IH [OF reduce_callback_wf [OF Cons.prems]] show ?case by simp
qed

lemma connections_loop_wf:
  "connections_loop lines st = Inr st' \<Longrightarrow> \<forall>c\<in>set (fst st). wf_conn c
   \<Longrightarrow> \<forall>c\<in>set (fst st'). wf_conn c"
proof (induction lines arbitrary: st)
  case Nil
  then show ?case by simp
next
  case (Cons line lines)
  from Cons.prems(1) obtain a rest where ar: "arcs line = a # rest"
    by (cases "arcs line") (simp_all add: reduce_line_def)
  with Cons.prems(1)
  have "connections_loop lines (reduce_from (stroke line) a rest st) = Inr st'"
    by (simp add: reduce_line_def)
  from Cons.IH [OF this reduce_from_wf [OF Cons.prems(2)]] show ?case .
qed

lemma extractLineConnections_wf:
  "extractLineConnections T = Inr cs \<Longrightarrow> \<forall>c\<in>set cs. wf_conn c"
  using connections_loop_wf [of "geometries T" "([], [])"]
  by (auto simp: extractLineConnections_def split: sum.splits)

lemma fold_push: "fold (\<lambda>connection cs. cs @ [connection]) xs ys = ys @ xs"
  by (induction xs arbitrary: ys) simp_all

lemma fold_update_keys:
  "fst ` set (fold (\<lambda>x m. AList.update (k x) (v x) m) xs m0) = k ` set xs \<union> fst ` set m0"
  by (induction xs arbitrary: m0) (auto simp: dom_update)

lemma ExtractLineSegments_keys: "fst ` set (ExtractLineSegments T) \<subseteq> range segment_key"
  by (auto simp: ExtractLineSegments_def fold_update_keys)

lemma processTopologies_wf: "wf_worker (snd (processTopologies data w))"
proof (cases "extractLineConnections data")
  case (Inl e)
  then show ?thesis by (simp add: processTopologies_def wf_worker_def new_worker_def)
next
  case (Inr cs)
  have "fst ` set (fold (\<lambda>entry m. AList.update (fst entry) (snd entry) m)
           (ExtractLineSegments data) []) \<subseteq> range segment_key"
    using ExtractLineSegments_keys [of data] by (simp add: fold_update_keys)
  with extractLineConnections_wf [OF Inr] Inr show ?thesis
    by (auto simp: processTopologies_def wf_worker_def fold_push Let_def)
qed

lemma renderLines_wf:
  assumes w: "wf_worker w"
  shows "wf_worker (snd (renderLines g w r viewbox))"
proof -
  let ?L' = "LineSegments (snd (renderLines g w r viewbox))"
  have "map fst ?L' = map fst (LineSegments w)"
    by (simp add: renderLines_worker segments_loop_keys)
  then have keys: "fst ` set ?L' = fst ` set (LineSegments w)"
    by (metis set_map)
  have "fst entry \<in> range segment_key" if "entry \<in> set ?L'" for entry
  proof -
    from that have "fst entry \<in> fst ` set ?L'" by (rule imageI)
    with keys obtain e where "e \<in> set (LineSegments w)" "fst e = fst entry" by auto
    with w show ?thesis unfolding wf_worker_def by metis
  qed
  moreover have "LineConnections (snd (renderLines g w r viewbox)) = LineConnections w"
    by (simp add: renderLines_worker)
  ultimately show ?thesis
    using w by (simp add: wf_worker_def)
qed

lemma reachable_wf: "reachable w \<Longrightarrow> wf_worker w"
proof (induction rule: reachable.induct)
  case start
  show ?case by (simp add: wf_worker_def new_worker_def)
next
  case (init w data)
  show ?case by (simp add: message_init_def processTopologies_wf)
next
  case (request_render w approximated g line_width zoom viewbox)
  then show ?case by (simp add: message_request_render_def renderLines_wf)
qed

lemma segments_loop_color_present:
  assumes "wf_worker w"
    and "segments_loop g spacing viewbox (LineSegments w) (\<lambda>key. None, []) = (entries', E, R)"
    and "c \<in> set (LineConnections w)" "None \<notin> set (connection_coords E c)"
  shows "map_of R (color c) \<noteq> None"
proof -
  from assms(1) have ids: "\<forall>entry\<in>set (LineSegments w). fst entry \<in> range segment_key"
    by (simp add: wf_worker_def)
  from segments_loop_registered [OF ids, of "(\<lambda>key. None, [])" g spacing viewbox] assms(2)
  have reg: "registered (range segment_key) E R"
    by (simp add: registered_empty)
  from assms(1,3) have "snd (conn_from c) \<in> {''top'', ''bottom''}"
    by (simp add: wf_worker_def wf_conn_def)
  moreover have "E (registry_key (fst (conn_from c), snd (conn_from c)) (color c) Actual)
      \<in> set (connection_coords E c)"
    by (simp add: connection_coords_chain chain_lookups_def)
  with assms(4)
  have "E (registry_key (fst (conn_from c), snd (conn_from c)) (color c) Actual) \<noteq> None"
    by metis
  ultimately show ?thesis
    by (rule registered_actual_color [OF reg])
qed

subsection \<open>A topology of two arcs and one route, ingested and rendered\<close>

lemma scenario_state:
  "snd (message_init
     \<lparr>geometries = [\<lparr>arcs = [0, 1], stroke = ''#FF0000''\<rparr>],
      topo_arcs = [[(0, 0), (1, 1)], [(1, 1), (2, 2)]]\<rparr> new_worker)
   = \<lparr>LineSegments =
        [(''Segment:0'',
          \<lparr>geometry = [(0, 0), (1, 1)], top = Some (0, 0), bottom = Some (1, 1),
           colors = [''#FF0000'']\<rparr>),
         (''Segment:1'',
          \<lparr>geometry = [(1, 1), (2, 2)], top = Some (1, 1), bottom = Some (2, 2),
           colors = [''#FF0000'']\<rparr>)],
      LineConnections =
        [\<lparr>conn_from = (0, ''bottom''), conn_to = (1, ''top''), color = ''#FF0000''\<rparr>]\<rparr>"
  by (simp add: message_init_def processTopologies_def extractLineConnections_def reduce_line_def
      reduce_callback_def DedupeString_def Let_def
      ExtractLineSegments_def make_segment_def colorsInSegment_def
      color_if_in_segment_def segment_key_def js_string_of_int_def string_of_nat.simps
      digit_char_def first_elem_def last_elem_def upt_rec)

lemma scenario_render:
  "fst (renderLines plain_turf
     \<lparr>LineSegments =
        [(''Segment:0'',
          \<lparr>geometry = [(0, 0), (1, 1)], top = Some (0, 0), bottom = Some (1, 1),
           colors = [''#FF0000'']\<rparr>),
         (''Segment:1'',
          \<lparr>geometry = [(1, 1), (2, 2)], top = Some (1, 1), bottom = Some (2, 2),
           colors = [''#FF0000'']\<rparr>)],
      LineConnections =
        [\<lparr>conn_from = (0, ''bottom''), conn_to = (1, ''top''), color = ''#FF0000''\<rparr>]\<rparr>
     (Finite (1 / 4)) [(- 1, - 1), (3, - 1), (3, 3), (- 1, 3), (- 1, - 1)])
   = Inr [\<lparr>coordinates =
             [[(0, 0), (1, 1)], [(1, 1), (2, 2)],
              [(1, 1), (1, 1), (1, 1), (1, 1), (1, 1), (1, 1)]],
           feature_id = ''#FF0000'', feature_stroke = ''#FF0000''\<rparr>]"
  by (simp add: renderLines_def render_with_spacing_def Let_def render_segment_def
      render_color_def plain_turf_def ClipLine_def ClipLine_at_def lineOffset_at_def
      spacing_below_def finite_value_def double_0_00005 double_0_3 ProcessOffsetLines_def
      colors_sorted_by_luminosity_def js_sort_def first_elem_def last_elem_def
      stitch_connection_def connection_coords_def
      js_string_of_int_def string_of_nat.simps digit_char_def upt_rec)

text \<open>
  C10. In every state the worker can reach and for every render call, a connection whose
  six lookups in the registry built by the segment loop are all present has a colour
  with an entry in the rendered lines built by that loop, and the render call returns
  its features: the stitching loop never reads a missing entry.
\<close>

theorem stitching_finds_rendered_color:
  assumes "reachable w"
  shows "(\<forall>entries' E R c.
            segments_loop g spacing viewbox (LineSegments w) (\<lambda>key. None, []) = (entries', E, R)
            \<longrightarrow> c \<in> set (LineConnections w)
            \<longrightarrow> None \<notin> set (connection_coords E c)
            \<longrightarrow> map_of R (color c) \<noteq> None)
     \<and> (\<exists>features. fst (renderLines g w RequestedSpacing viewbox) = Inr features)"
proof
  from assms have wf: "wf_worker w" by (rule reachable_wf)
  show "\<forall>entries' E R c.
            segments_loop g spacing viewbox (LineSegments w) (\<lambda>key. None, []) = (entries', E, R)
            \<longrightarrow> c \<in> set (LineConnections w)
            \<longrightarrow> None \<notin> set (connection_coords E c)
            \<longrightarrow> map_of R (color c) \<noteq> None"
    using segments_loop_color_present [OF wf] by blast
  let ?s = "finite_value (js_max (fl 0.00005) (js_min (fl 0.3) RequestedSpacing))"
  obtain entries' E R where l:
    "segments_loop g ?s viewbox (LineSegments w) (\<lambda>key. None, []) = (entries', E, R)"
    by (cases "segments_loop g ?s viewbox (LineSegments w) (\<lambda>key. None, [])") auto
  have "\<forall>c\<in>set (LineConnections w). None \<notin> set (connection_coords E c)
          \<longrightarrow> map_of R (color c) \<noteq> None"
    using segments_loop_color_present [OF wf l] by blast
  from stitch_loop_returns [OF this, of g "spacing_below ?s 0.11"] obtain R' where
    "stitch_loop g (spacing_below ?s 0.11) E (LineConnections w) R = Inr R'" by blast
  with l show "\<exists>features. fst (renderLines g w RequestedSpacing viewbox) = Inr features"
    by (simp add: renderLines_def render_with_spacing_def Let_def)
qed

theorem stitching_finds_rendered_color_witness:
  "fst (renderLines plain_turf
     (snd (message_init
        \<lparr>geometries = [\<lparr>arcs = [0, 1], stroke = ''#FF0000''\<rparr>],
         topo_arcs = [[(0, 0), (1, 1)], [(1, 1), (2, 2)]]\<rparr> new_worker))
     (Finite (1 / 4)) [(- 1, - 1), (3, - 1), (3, 3), (- 1, 3), (- 1, - 1)])
   = Inr [\<lparr>coordinates =
             [[(0, 0), (1, 1)], [(1, 1), (2, 2)],
              [(1, 1), (1, 1), (1, 1), (1, 1), (1, 1), (1, 1)]],
           feature_id = ''#FF0000'', feature_stroke = ''#FF0000''\<rparr>]"
  using stitching_finds_rendered_color
    [OF reachable.init [OF reachable.start,
          of "\<lparr>geometries = [\<lparr>arcs = [0, 1], stroke = ''#FF0000''\<rparr>],
               topo_arcs = [[(0, 0), (1, 1)], [(1, 1), (2, 2)]]\<rparr>"],
      where g = plain_turf and RequestedSpacing = "Finite (1 / 4)"
        and viewbox = "[(- 1, - 1), (3, - 1), (3, 3), (- 1, 3), (- 1, - 1)]"]
  by (simp only: scenario_state scenario_render)

subsection \<open>Stitching in a render call\<close>

text \<open>
  C9. In every state the worker can reach, a render call returns the features of the
  rendered lines that its segment loop built, with the same colours in the same order and
  each colour's list extended by the chains of exactly those connections of that colour
  whose six lookups are all present, in the order of the connections. A connection with
  an absent lookup adds nothing. A chain is the six points from, from buffer, from
  invasive, to invasive, to buffer, to, smoothed with 7 iterations and factor 0.75 exactly
  when the clamped spacing of the call is below 0.11, which a spacing that is NaN is not.
\<close>

theorem renderLines_stitches_complete_chains:
  assumes "reachable w"
    and "segments_loop g (finite_value (clamp RequestedSpacing (fl 0.00005) (fl 0.3))) viewbox
           (LineSegments w) (\<lambda>key. None, []) = (entries', E, R)"
  shows "\<exists>R'. fst (renderLines g w RequestedSpacing viewbox)
             = Inr (map (\<lambda>entry. \<lparr>coordinates = snd entry, feature_id = fst entry,
                                    feature_stroke = fst entry\<rparr>) R')
     \<and> map fst R' = map fst R
     \<and> (\<forall>k ls. map_of R k = Some ls \<longrightarrow>
           map_of R' k
             = Some (ls @ map (stitched g
                                 (finite_value (clamp RequestedSpacing (fl 0.00005) (fl 0.3))) E)
                           (filter (\<lambda>c. color c = k \<and> all_six_present E c)
                              (LineConnections w))))"
proof -
  let ?s = "finite_value (clamp RequestedSpacing (fl 0.00005) (fl 0.3))"
  from assms(1) have wf: "wf_worker w" by (rule reachable_wf)
  have "\<forall>c\<in>set (LineConnections w). all_six_present E c \<longrightarrow> map_of R (color c) \<noteq> None"
    using segments_loop_color_present [OF wf assms(2)]
    by (simp add: all_six_present_def connection_coords_chain)
  from stitch_loop_result [OF this, of g ?s] obtain R' where R':
    "stitch_loop g (spacing_below ?s 0.11) E (LineConnections w) R = Inr R'"
    "map fst R' = map fst R"
    "\<forall>k ls. map_of R k = Some ls \<longrightarrow>
       map_of R' k
         = Some (ls @ map (stitched g ?s E)
                       (filter (\<lambda>c. color c = k \<and> all_six_present E c) (LineConnections w)))"
    by blast
  from assms(2) R'(1)
  have "fst (renderLines g w RequestedSpacing viewbox)
      = Inr (map (\<lambda>entry. \<lparr>coordinates = snd entry, feature_id = fst entry,
                             feature_stroke = fst entry\<rparr>) R')"
    by (simp add: renderLines_def render_with_spacing_def clamp_def Let_def)
  with R'(2,3) show ?thesis by blast
qed

lemma only_entry:
  assumes "map fst R = [k]" "map_of R k = Some v"
  shows "R = [(k, v)]"
proof -
  from assms(1) obtain v' where "R = [(k, v')]"
    by (cases R) auto
  with assms(2) show ?thesis by simp
qed

theorem renderLines_stitches_complete_chains_witness:
  "fst (renderLines marking_turf
     (snd (message_init
        \<lparr>geometries = [\<lparr>arcs = [0, 1], stroke = ''#FF0000''\<rparr>],
         topo_arcs = [[(0, 0), (1, 1)], [(1, 1), (2, 2)]]\<rparr> new_worker))
     (Finite (1 / 16)) [(- 1, - 1), (3, - 1), (3, 3), (- 1, 3), (- 1, - 1)])
   = Inr [\<lparr>coordinates =
             [[(0, 0), (1, 1)], [(1, 1), (2, 2)],
              [(7, 0.75), (1, 1), (1, 1), (1, 1), (1, 1), (1, 1), (1, 1)]],
           feature_id = ''#FF0000'', feature_stroke = ''#FF0000''\<rparr>]"
proof -
  let ?T = "\<lparr>geometries = [\<lparr>arcs = [0, 1], stroke = ''#FF0000''\<rparr>],
             topo_arcs = [[(0, 0), (1, 1)], [(1, 1), (2, 2)]]\<rparr>"
  let ?w = "snd (message_init ?T new_worker)"
  let ?vb = "[(- 1, - 1), (3, - 1), (3, 3), (- 1, 3), (- 1, - 1)] :: coordpair list"
  let ?c = "\<lparr>conn_from = (0, ''bottom''), conn_to = (1, ''top''), color = ''#FF0000''\<rparr>"
  let ?s = "finite_value (clamp (Finite (1 / 16)) (fl 0.00005) (fl 0.3))"
  have s: "?s = Some (1 / 16)"
    by (simp add: finite_value_def clamp_def double_0_00005 double_0_3)
  obtain entries' E R where run:
    "segments_loop marking_turf (Some (1 / 16)) ?vb (LineSegments ?w) (\<lambda>key. None, [])
       = (entries', E, R)"
    by (cases "segments_loop marking_turf (Some (1 / 16)) ?vb (LineSegments ?w)
                 (\<lambda>key. None, [])") auto
  then have loop:
    "segments_loop marking_turf ?s ?vb (LineSegments ?w) (\<lambda>key. None, []) = (entries', E, R)"
    by (simp only: s)
  from run have R: "R = [(''#FF0000'', [[(0, 0), (1, 1)], [(1, 1), (2, 2)]])]"
    by (simp add: scenario_state render_segment_def render_color_def Let_def
        marking_turf_def plain_turf_def ClipLine_def ClipLine_at_def lineOffset_at_def
        spacing_below_def ProcessOffsetLines_def colors_sorted_by_luminosity_def js_sort_def
        upt_rec split: prod.splits)
  from run have chain: "chain_lookups E ?c = replicate 6 (Some (1, 1))"
    by (auto simp: scenario_state render_segment_def render_color_def Let_def
        marking_turf_def plain_turf_def ClipLine_def ClipLine_at_def lineOffset_at_def
        spacing_below_def ProcessOffsetLines_def colors_sorted_by_luminosity_def js_sort_def
        first_elem_def last_elem_def chain_lookups_def registry_key_def variant_suffix_def
        js_string_of_int_def string_of_nat.simps digit_char_def upt_rec numeral_eq_Suc
        split: prod.splits)
  have conns: "LineConnections ?w = [?c]"
    by (simp add: scenario_state)
  from renderLines_stitches_complete_chains
    [OF reachable.init [OF reachable.start, of ?T] loop]
  obtain R' where R':
    "fst (renderLines marking_turf ?w (Finite (1 / 16)) ?vb)
       = Inr (map (\<lambda>entry. \<lparr>coordinates = snd entry, feature_id = fst entry,
                              feature_stroke = fst entry\<rparr>) R')"
    "map fst R' = map fst R"
    "\<forall>k ls. map_of R k = Some ls \<longrightarrow>
       map_of R' k
         = Some (ls @ map (stitched marking_turf ?s E)
                       (filter (\<lambda>c. color c = k \<and> all_six_present E c) (LineConnections ?w)))"
    by blast
  from R'(3) have "map_of R' ''#FF0000''
      = Some ([[(0, 0), (1, 1)], [(1, 1), (2, 2)]] @ map (stitched marking_turf ?s E)
                (filter (\<lambda>c. color c = ''#FF0000'' \<and> all_six_present E c) [?c]))"
    unfolding conns by (simp add: R)
  then have "map_of R' ''#FF0000''
      = Some [[(0, 0), (1, 1)], [(1, 1), (2, 2)],
              [(7, 0.75), (1, 1), (1, 1), (1, 1), (1, 1), (1, 1), (1, 1)]]"
    by (simp add: all_six_present_def chain stitched_def spacing_below_def finite_value_def
        clamp_def double_0_00005 double_0_3 marking_turf_def plain_turf_def numeral_eq_Suc)
  with R'(2) have "R' = [(''#FF0000'',
      [[(0, 0), (1, 1)], [(1, 1), (2, 2)],
       [(7, 0.75), (1, 1), (1, 1), (1, 1), (1, 1), (1, 1), (1, 1)]])]"
    by (intro only_entry) (simp_all add: R)
  with R'(1) show ?thesis by simp
qed

subsection \<open>Clipping\<close>

lemma planar_distance_nonneg: "0 \<le> planar_distance p q"
  by (simp add: planar_distance_def)

lemma planar_distance_from_start:
  "0 \<le> t \<Longrightarrow> planar_distance p (point_between p q t) = t * planar_distance p q"
proof -
  assume t: "0 \<le> t"
  have "(t * (fst q - fst p))\<^sup>2 + (t * (snd q - snd p))\<^sup>2
      = t\<^sup>2 * ((fst q - fst p)\<^sup>2 + (snd q - snd p)\<^sup>2)"
    by (simp add: power_mult_distrib distrib_left)
  with t show ?thesis
    by (simp add: planar_distance_def point_between_def real_sqrt_mult)
qed

lemma planar_distance_to_end:
  "t \<le> 1 \<Longrightarrow> planar_distance (point_between p q t) q = (1 - t) * planar_distance p q"
proof -
  assume t: "t \<le> 1"
  have "(fst q - (fst p + t * (fst q - fst p)))\<^sup>2 + (snd q - (snd p + t * (snd q - snd p)))\<^sup>2
      = (1 - t)\<^sup>2 * ((fst q - fst p)\<^sup>2 + (snd q - snd p)\<^sup>2)"
    by (simp add: power2_eq_square algebra_simps)
  with t show ?thesis
    by (simp add: planar_distance_def point_between_def real_sqrt_mult)
qed

lemma spec_length_nonneg: "0 \<le> spec_length l"
  by (induction l rule: spec_length.induct) (simp_all add: planar_distance_nonneg)

lemma spec_length_drop_along: "spec_length (drop_along l s) \<le> spec_length l"
proof (induction l s rule: drop_along.induct)
  case (1 p q qs s)
  show ?case
  proof (cases "s \<le> 0")
    case True
    then show ?thesis by simp
  next
    case pos: False
    show ?thesis
    proof (cases "planar_distance p q \<le> s")
      case True
      with pos 1 planar_distance_nonneg [of p q] show ?thesis by simp
    next
      case False
      with pos have t: "s / planar_distance p q \<le> 1" by simp
      have "(1 - s / planar_distance p q) * planar_distance p q \<le> planar_distance p q"
        using pos False by (simp add: field_simps)
      with pos False show ?thesis
        by (simp add: planar_distance_to_end [OF t])
    qed
  qed
qed simp_all

lemma take_along_Cons: "\<exists>rest. take_along (q # qs) e = q # rest"
  by (cases qs) simp_all

lemma spec_length_take_along: "spec_length (take_along l e) \<le> spec_length l"
proof (induction l e rule: take_along.induct)
  case (1 p q qs e)
  show ?case
  proof (cases "e \<le> 0")
    case True
    then show ?thesis
      using spec_length_nonneg [of "q # qs"] planar_distance_nonneg [of p q] by simp
  next
    case pos: False
    show ?thesis
    proof (cases "planar_distance p q \<le> e")
      case True
      obtain rest where rest: "take_along (q # qs) (e - planar_distance p q) = q # rest"
        using take_along_Cons by blast
      from 1 [OF pos True] pos True show ?thesis
        by (simp add: rest)
    next
      case False
      with pos have t: "0 \<le> e / planar_distance p q" by simp
      from pos False show ?thesis
        using spec_length_nonneg [of "q # qs"]
        by (simp add: planar_distance_from_start [OF t])
    qed
  qed
qed simp_all

lemma vertices_drop_along:
  "s < spec_length l \<Longrightarrow> 2 \<le> length l \<Longrightarrow> 2 \<le> length (drop_along l s)"
proof (induction l s rule: drop_along.induct)
  case (1 p q qs s)
  show ?case
  proof (cases "s \<le> 0 \<or> \<not> planar_distance p q \<le> s")
    case True
    then show ?thesis by auto
  next
    case False
    with 1(2) have less: "s - planar_distance p q < spec_length (q # qs)" by simp
    have "2 \<le> length (q # qs)"
    proof (cases qs)
      case Nil
      with less False show ?thesis by simp
    qed simp
    from 1(1) [OF _ _ less this] False show ?thesis by simp
  qed
qed simp_all

lemma vertices_take_along:
  "0 < e \<Longrightarrow> 2 \<le> length l \<Longrightarrow> 2 \<le> length (take_along l e)"
proof (cases l)
  case (Cons p l')
  assume e: "0 < e" and "2 \<le> length l"
  with Cons obtain q qs where l': "l' = q # qs" by (cases l') auto
  obtain rest where "take_along (q # qs) (e - planar_distance p q) = q # rest"
    using take_along_Cons by blast
  with e show ?thesis by (simp add: Cons l')
qed simp

lemma ClipLine_cases:
  "ClipLine g line d =
     (if turf_length g line / 3 \<le> d \<or> length line < 4 then line
      else lineSliceAlong g line (min (turf_length g line / 3) d)
             (max (turf_length g line / 3 * 2) (turf_length g line - d)))"
  by (simp add: ClipLine_def Let_def)

text \<open>
  C7. With the planar length and slice for the library's: \<open>ClipLine\<close> returns a line
  of fewer than 4 vertices, or of a length whose third is at most the clip distance, as
  it is; otherwise it returns the slice between \<open>min(len/3, d)\<close> and
  \<open>max(2 len/3, len - d)\<close>, which has at least 2 vertices; and its result is never
  longer than the line.
\<close>

theorem ClipLine_policy:
  "(length line < 4 \<or> spec_length line / 3 \<le> d \<longrightarrow>
      ClipLine (g\<lparr>turf_length := spec_length, lineSliceAlong := spec_lineSliceAlong\<rparr>) line d
        = line)
   \<and> (\<not> (length line < 4 \<or> spec_length line / 3 \<le> d) \<longrightarrow>
      ClipLine (g\<lparr>turf_length := spec_length, lineSliceAlong := spec_lineSliceAlong\<rparr>) line d
        = spec_lineSliceAlong line (min (spec_length line / 3) d)
            (max (2 * spec_length line / 3) (spec_length line - d))
      \<and> 2 \<le> length (ClipLine
            (g\<lparr>turf_length := spec_length, lineSliceAlong := spec_lineSliceAlong\<rparr>) line d))
   \<and> spec_length (ClipLine
         (g\<lparr>turf_length := spec_length, lineSliceAlong := spec_lineSliceAlong\<rparr>) line d)
       \<le> spec_length line"
proof (cases "length line < 4 \<or> spec_length line / 3 \<le> d")
  case True
  then have "ClipLine (g\<lparr>turf_length := spec_length, lineSliceAlong := spec_lineSliceAlong\<rparr>)
      line d = line"
    by (auto simp: ClipLine_cases)
  with True show ?thesis by simp
next
  case False
  let ?len = "spec_length line"
  from False have d: "d < ?len / 3" and n: "4 \<le> length line" by simp_all
  have len: "0 \<le> ?len" by (rule spec_length_nonneg)
  from d have se: "min (?len / 3) d = d" "max (2 * ?len / 3) (?len - d) = ?len - d"
    by simp_all
  from False have eq:
    "ClipLine (g\<lparr>turf_length := spec_length, lineSliceAlong := spec_lineSliceAlong\<rparr>) line d
       = spec_lineSliceAlong line d (?len - d)"
    using se by (simp add: ClipLine_cases)
  have "spec_length (spec_lineSliceAlong line d (?len - d)) \<le> ?len"
    unfolding spec_lineSliceAlong_def
    by (rule order_trans [OF spec_length_take_along spec_length_drop_along])
  moreover have "2 \<le> length (spec_lineSliceAlong line d (?len - d))"
    unfolding spec_lineSliceAlong_def
  proof (rule vertices_take_along)
    from d len show "0 < ?len - d - max 0 d" by (simp add: max_def)
    from d len have "d < ?len" by simp
    with n show "2 \<le> length (drop_along line d)"
      by (intro vertices_drop_along) simp_all
  qed
  ultimately show ?thesis using False eq se by simp
qed

lemma planar_distance_horizontal: "planar_distance (x1, y) (x2, y) = \<bar>x2 - x1\<bar>"
  by (simp add: planar_distance_def)

theorem ClipLine_policy_witness:
  "ClipLine (plain_turf\<lparr>turf_length := spec_length, lineSliceAlong := spec_lineSliceAlong\<rparr>)
     [(0, 0), (3, 0), (6, 0), (9, 0)] 1
   = [(1, 0), (3, 0), (6, 0), (8, 0)]
   \<and> ClipLine (plain_turf\<lparr>turf_length := spec_length, lineSliceAlong := spec_lineSliceAlong\<rparr>)
     [(0, 0), (3, 0), (6, 0), (9, 0)] 3
   = [(0, 0), (3, 0), (6, 0), (9, 0)]"
  using ClipLine_policy [of "[(0, 0), (3, 0), (6, 0), (9, 0)]" 1 plain_turf]
    ClipLine_policy [of "[(0, 0), (3, 0), (6, 0), (9, 0)]" 3 plain_turf]
  by (simp add: planar_distance_horizontal spec_lineSliceAlong_def point_between_def)

end
